theory Spec2Isabelle
  imports Main
begin

section \<open>Coordinate primitives\<close>

text \<open>
  Modelled from the spec: the value types \<open>Position\<close>, \<open>Range\<close> and \<open>Selection\<close>
  (core/position, core/range, core/selection) are imported by the sources but are not part
  of them. A position is a (line, column) pair, a range an ordered span of two positions
  and a selection a range with a remembered anchor side. Line numbers and columns are
  JavaScript numbers holding integers; they are modelled as \<open>int\<close> (the coercions
  \<open>| 0\<close> of the comparison functions are the identity on them).
\<close>

record Position =
  lineNumber :: int
  column :: int

text \<open>Modelled from the spec: Range (core/range): the start and the end of a span.\<close>

record Range =
  startLineNumber :: int
  startColumn :: int
  endLineNumber :: int
  endColumn :: int

text \<open>
  Modelled from the spec: Selection (core/selection): the anchor (selection start) and the
  head (position).
\<close>

record Selection =
  selectionStartLineNumber :: int
  selectionStartColumn :: int
  positionLineNumber :: int
  positionColumn :: int

text \<open>Modelled from the spec: the constructor of Position.\<close>

definition mkPosition :: "int \<Rightarrow> int \<Rightarrow> Position" where
  "mkPosition l c = \<lparr>lineNumber = l, column = c\<rparr>"

text \<open>
  Modelled from the spec: the constructor of \<open>Range\<close> orders its two end points
  ("ordered span of positions"): when the first point lies after the second, they are swapped.
\<close>

definition mkRange :: "int \<Rightarrow> int \<Rightarrow> int \<Rightarrow> int \<Rightarrow> Range" where
  "mkRange sl sc el ec =
     (if sl > el \<or> (sl = el \<and> sc > ec)
      then \<lparr>startLineNumber = el, startColumn = ec, endLineNumber = sl, endColumn = sc\<rparr>
      else \<lparr>startLineNumber = sl, startColumn = sc, endLineNumber = el, endColumn = ec\<rparr>)"

text \<open>
  Modelled from the spec: the constructor of Selection, from the anchor and the head.
\<close>

definition mkSelection :: "int \<Rightarrow> int \<Rightarrow> int \<Rightarrow> int \<Rightarrow> Selection" where
  "mkSelection ssl ssc pl pc =
     \<lparr>selectionStartLineNumber = ssl, selectionStartColumn = ssc,
      positionLineNumber = pl, positionColumn = pc\<rparr>"

text \<open>
  Modelled from the spec: a \<open>Selection\<close> is a \<open>Range\<close> (its class extends \<open>Range\<close>, calling
  the range constructor on the anchor and the head); \<open>asRange\<close> reads the inherited fields.
\<close>

definition asRange :: "Selection \<Rightarrow> Range" where
  "asRange s = mkRange (selectionStartLineNumber s) (selectionStartColumn s)
                       (positionLineNumber s) (positionColumn s)"

text \<open>Modelled from the spec: Position.equals compares line number and column.\<close>

definition Position_equals :: "Position \<Rightarrow> Position \<Rightarrow> bool" where
  "Position_equals a b \<longleftrightarrow> lineNumber a = lineNumber b \<and> column a = column b"

text \<open>Modelled from the spec: Position.isBefore, the strict line-then-column order.\<close>

definition Position_isBefore :: "Position \<Rightarrow> Position \<Rightarrow> bool" where
  "Position_isBefore a b =
     (if lineNumber a < lineNumber b then True
      else if lineNumber b < lineNumber a then False
      else column a < column b)"

text \<open>Modelled from the spec: Position.isBeforeOrEqual, the line-then-column order.\<close>

definition Position_isBeforeOrEqual :: "Position \<Rightarrow> Position \<Rightarrow> bool" where
  "Position_isBeforeOrEqual a b =
     (if lineNumber a < lineNumber b then True
      else if lineNumber b < lineNumber a then False
      else column a \<le> column b)"

text \<open>
  Modelled from the spec: Position.compare, negative, zero or positive in the
  line-then-column order.
\<close>

definition Position_compare :: "Position \<Rightarrow> Position \<Rightarrow> int" where
  "Position_compare a b =
     (if lineNumber a = lineNumber b then column a - column b
      else lineNumber a - lineNumber b)"

text \<open>Modelled from the spec: Range.isEmpty, start and end coincide.\<close>

definition Range_isEmpty :: "Range \<Rightarrow> bool" where
  "Range_isEmpty r \<longleftrightarrow> startLineNumber r = endLineNumber r \<and> startColumn r = endColumn r"

text \<open>Modelled from the spec: Range.getStartPosition.\<close>

definition Range_getStartPosition :: "Range \<Rightarrow> Position" where
  "Range_getStartPosition r = mkPosition (startLineNumber r) (startColumn r)"

text \<open>Modelled from the spec: Range.getEndPosition.\<close>

definition Range_getEndPosition :: "Range \<Rightarrow> Position" where
  "Range_getEndPosition r = mkPosition (endLineNumber r) (endColumn r)"

text \<open>Modelled from the spec: Range.equalsRange compares the four coordinates.\<close>

definition Range_equalsRange :: "Range \<Rightarrow> Range \<Rightarrow> bool" where
  "Range_equalsRange a b \<longleftrightarrow>
     startLineNumber a = startLineNumber b \<and> startColumn a = startColumn b \<and>
     endLineNumber a = endLineNumber b \<and> endColumn a = endColumn b"

text \<open>
  Modelled from the spec: Range.fromPositions, the range constructor on two positions.
\<close>

definition Range_fromPositions :: "Position \<Rightarrow> Position \<Rightarrow> Range" where
  "Range_fromPositions s e = mkRange (lineNumber s) (column s) (lineNumber e) (column e)"

text \<open>
  Modelled from the spec: Range.plusRange, the union: the smaller start and the larger end.
\<close>

definition Range_plusRange :: "Range \<Rightarrow> Range \<Rightarrow> Range" where
  "Range_plusRange a b =
     (let (sl, sc) =
            (if startLineNumber b < startLineNumber a then (startLineNumber b, startColumn b)
             else if startLineNumber b = startLineNumber a
                  then (startLineNumber b, min (startColumn b) (startColumn a))
             else (startLineNumber a, startColumn a));
          (el, ec) =
            (if endLineNumber b > endLineNumber a then (endLineNumber b, endColumn b)
             else if endLineNumber b = endLineNumber a
                  then (endLineNumber b, max (endColumn b) (endColumn a))
             else (endLineNumber a, endColumn a))
      in mkRange sl sc el ec)"

text \<open>
  Modelled from the spec: Range.compareRangesUsingStarts, the order by start and, for equal
  starts, by end.
\<close>

definition Range_compareRangesUsingStarts :: "Range \<Rightarrow> Range \<Rightarrow> int" where
  "Range_compareRangesUsingStarts a b =
     (if startLineNumber a = startLineNumber b then
        (if startColumn a = startColumn b then
           (if endLineNumber a = endLineNumber b then endColumn a - endColumn b
            else endLineNumber a - endLineNumber b)
         else startColumn a - startColumn b)
      else startLineNumber a - startLineNumber b)"

text \<open>Modelled from the spec: Selection.getPosition, the head.\<close>

definition Selection_getPosition :: "Selection \<Rightarrow> Position" where
  "Selection_getPosition s = mkPosition (positionLineNumber s) (positionColumn s)"

text \<open>Modelled from the spec: Selection.getSelectionStart, the anchor.\<close>

definition Selection_getSelectionStart :: "Selection \<Rightarrow> Position" where
  "Selection_getSelectionStart s =
     mkPosition (selectionStartLineNumber s) (selectionStartColumn s)"

text \<open>
  Modelled from the spec: Selection.fromPositions, the selection from an anchor to a head.
\<close>

definition Selection_fromPositions :: "Position \<Rightarrow> Position \<Rightarrow> Selection" where
  "Selection_fromPositions s e = mkSelection (lineNumber s) (column s) (lineNumber e) (column e)"

text \<open>Modelled from the spec: Selection.equalsSelection compares anchor and head.\<close>

definition Selection_equalsSelection :: "Selection \<Rightarrow> Selection \<Rightarrow> bool" where
  "Selection_equalsSelection a b \<longleftrightarrow>
     selectionStartLineNumber a = selectionStartLineNumber b \<and>
     selectionStartColumn a = selectionStartColumn b \<and>
     positionLineNumber a = positionLineNumber b \<and>
     positionColumn a = positionColumn b"

section \<open>Cursor state\<close>

text \<open>
  Modelled from the spec: \<open>SingleCursorState\<close> and \<open>CursorState\<close> (cursorCommon) are
  imported by the sources. A single cursor state holds the selection-start range, its kind,
  the two leftover-column counters and the position; its \<open>selection\<close> is computed from the
  selection start and the position.
\<close>

datatype SelectionStartKind = Simple | Word | Line

text \<open>Modelled from the spec: the fields of SingleCursorState (cursorCommon).\<close>

record SingleCursorState =
  selectionStart :: Range
  selectionStartKind :: SelectionStartKind
  selectionStartLeftoverVisibleColumns :: int
  position :: Position
  leftoverVisibleColumns :: int

text \<open>Modelled from the spec: the constructor of SingleCursorState.\<close>

definition mkSingleCursorState ::
  "Range \<Rightarrow> SelectionStartKind \<Rightarrow> int \<Rightarrow> Position \<Rightarrow> int \<Rightarrow> SingleCursorState" where
  "mkSingleCursorState ss k sl p l =
     \<lparr>selectionStart = ss, selectionStartKind = k, selectionStartLeftoverVisibleColumns = sl,
      position = p, leftoverVisibleColumns = l\<rparr>"

text \<open>
  Modelled from the spec: the selection of a SingleCursorState, from the selection start to
  the position: from its start when the selection start is empty or the position lies after
  that start, from its end otherwise.
\<close>

definition selection :: "SingleCursorState \<Rightarrow> Selection" where
  "selection s =
     (if Range_isEmpty (selectionStart s)
         \<or> \<not> Position_isBeforeOrEqual (position s) (Range_getStartPosition (selectionStart s))
      then Selection_fromPositions (Range_getStartPosition (selectionStart s)) (position s)
      else Selection_fromPositions (Range_getEndPosition (selectionStart s)) (position s))"

text \<open>A partial cursor state: the model state, the view state, or both.\<close>

text \<open>
  Modelled from the spec: PartialCursorState (cursorCommon), a model state, a view state or
  both.
\<close>

record PartialCursorState =
  pModelState :: "SingleCursorState option"
  pViewState :: "SingleCursorState option"

text \<open>
  Modelled from the spec: CursorState.fromModelSelection, the model state of a selection:
  an empty selection start at the anchor, the position at the head, no leftover columns,
  and no view state.
\<close>

definition CursorState_fromModelSelection :: "Selection \<Rightarrow> PartialCursorState" where
  "CursorState_fromModelSelection sel =
     \<lparr>pModelState = Some (mkSingleCursorState
         (Range_fromPositions (Selection_getSelectionStart sel) (Selection_getSelectionStart sel))
         Simple 0 (Selection_getPosition sel) 0),
      pViewState = None\<rparr>"

section \<open>Cursor context\<close>

text \<open>
  The context bundles the four collaborators of a cursor. Their interfaces are imported
  (model, viewModel, cursorCommon); each method the sources call is a field here, so every
  theorem below holds for any implementation of them. The document's tracked-range table is
  the only part of the document these operations write: it is the state \<open>'d\<close>, threaded
  through \<open>setTrackedRange\<close>.
\<close>

datatype PositionAffinity = Left | Right | None_affinity | LeftOfInjectedText | RightOfInjectedText

datatype TrackedRangeStickiness =
  AlwaysGrowsWhenTypingAtEdges | NeverGrowsWhenTypingAtEdges
  | GrowsOnlyWhenTypingBefore | GrowsOnlyWhenTypingAfter

record 'd ITextModel =
  validatePosition :: "Position \<Rightarrow> Position"
  validateRange :: "Range \<Rightarrow> Range"
  setTrackedRange ::
    "'d \<Rightarrow> string option \<Rightarrow> Range option \<Rightarrow> TrackedRangeStickiness \<Rightarrow> string option \<times> 'd"

record ICursorSimpleModel =
  getLineCount :: int
  getLineContent :: "int \<Rightarrow> string"
  getLineMaxColumn :: "int \<Rightarrow> int"
  normalizePosition :: "Position \<Rightarrow> PositionAffinity \<Rightarrow> Position"

record ICoordinatesConverter =
  convertViewPositionToModelPosition :: "Position \<Rightarrow> Position"
  convertViewRangeToModelRange :: "Range \<Rightarrow> Range"
  convertModelPositionToViewPosition :: "Position \<Rightarrow> Position"
  validateViewPosition :: "Position \<Rightarrow> Position \<Rightarrow> Position"
  validateViewRange :: "Range \<Rightarrow> Range \<Rightarrow> Range"

datatype EditorAutoClosingStrategy =
  ACS_always | ACS_languageDefined | ACS_beforeWhitespace | ACS_never

datatype EditorAutoClosingEditStrategy = ACE_always | ACE_auto | ACE_never

record StandardAutoClosingPairConditional =
  pairOpen :: string
  pairClose :: string

record CursorConfiguration =
  multiCursorMergeOverlapping :: bool
  useTabStops :: bool
  indentSize :: int
  emptySelectionClipboard :: bool
  autoClosingDelete :: EditorAutoClosingEditStrategy
  autoClosingBrackets :: EditorAutoClosingStrategy
  autoClosingQuotes :: EditorAutoClosingStrategy
  autoClosingPairsOpenByEnd :: "string \<rightharpoonup> StandardAutoClosingPairConditional list"
  visibleColumnFromColumn :: "ICursorSimpleModel \<Rightarrow> Position \<Rightarrow> int"
  columnFromVisibleColumn :: "ICursorSimpleModel \<Rightarrow> int \<Rightarrow> int \<Rightarrow> int"

record 'd CursorContext =
  model :: "'d ITextModel"
  viewModel :: ICursorSimpleModel
  coordinatesConverter :: ICoordinatesConverter
  cursorConfig :: CursorConfiguration

section \<open>Single cursor\<close>

text \<open>
  A cursor owns its model state, its view state, the identifier of its tracked range and
  the flag that says whether the selection is tracked.
\<close>

record Cursor =
  modelState :: SingleCursorState
  viewState :: SingleCursorState
  selTrackedRange :: "string option"
  trackSelection :: bool

definition updateTrackedRange :: "'d CursorContext \<Rightarrow> 'd \<Rightarrow> Cursor \<Rightarrow> Cursor \<times> 'd" where
  "updateTrackedRange ctx d c =
     (if \<not> trackSelection c then (c, d)
      else let (i, d') = setTrackedRange (model ctx) d (selTrackedRange c)
                           (Some (asRange (selection (modelState c))))
                           AlwaysGrowsWhenTypingAtEdges
           in (c\<lparr>selTrackedRange := i\<rparr>, d'))"

definition removeTrackedRange :: "'d CursorContext \<Rightarrow> 'd \<Rightarrow> Cursor \<Rightarrow> Cursor \<times> 'd" where
  "removeTrackedRange ctx d c =
     (let (i, d') = setTrackedRange (model ctx) d (selTrackedRange c) None
                      AlwaysGrowsWhenTypingAtEdges
      in (c\<lparr>selTrackedRange := i\<rparr>, d'))"

definition Cursor_dispose :: "'d CursorContext \<Rightarrow> 'd \<Rightarrow> Cursor \<Rightarrow> Cursor \<times> 'd" where
  "Cursor_dispose ctx d c = removeTrackedRange ctx d c"

definition validatePositionWithCache ::
  "ICursorSimpleModel \<Rightarrow> Position \<Rightarrow> Position \<Rightarrow> Position \<Rightarrow> Position" where
  "validatePositionWithCache vm pos cacheInput cacheOutput =
     (if Position_equals pos cacheInput then cacheOutput
      else normalizePosition vm pos None_affinity)"

definition validateViewState :: "ICursorSimpleModel \<Rightarrow> SingleCursorState \<Rightarrow> SingleCursorState"
  where
  "validateViewState vm vs =
     (let pos = position vs;
          sStartPosition = Range_getStartPosition (selectionStart vs);
          sEndPosition = Range_getEndPosition (selectionStart vs);
          validPosition = normalizePosition vm pos None_affinity;
          validSStartPosition =
            validatePositionWithCache vm sStartPosition pos validPosition;
          validSEndPosition =
            validatePositionWithCache vm sEndPosition sStartPosition validSStartPosition
      in if Position_equals pos validPosition
            \<and> Position_equals sStartPosition validSStartPosition
            \<and> Position_equals sEndPosition validSEndPosition
         then vs
         else mkSingleCursorState
                (Range_fromPositions validSStartPosition validSEndPosition)
                (selectionStartKind vs)
                (selectionStartLeftoverVisibleColumns vs
                   + column sStartPosition - column validSStartPosition)
                validPosition
                (leftoverVisibleColumns vs + column pos - column validPosition))"

text \<open>
  The variant the cache is compared with: every one of the three positions is handed to
  \<open>normalizePosition\<close> itself.
\<close>

definition validateViewState_direct ::
  "ICursorSimpleModel \<Rightarrow> SingleCursorState \<Rightarrow> SingleCursorState" where
  "validateViewState_direct vm vs =
     (let pos = position vs;
          sStartPosition = Range_getStartPosition (selectionStart vs);
          sEndPosition = Range_getEndPosition (selectionStart vs);
          validPosition = normalizePosition vm pos None_affinity;
          validSStartPosition = normalizePosition vm sStartPosition None_affinity;
          validSEndPosition = normalizePosition vm sEndPosition None_affinity
      in if Position_equals pos validPosition
            \<and> Position_equals sStartPosition validSStartPosition
            \<and> Position_equals sEndPosition validSEndPosition
         then vs
         else mkSingleCursorState
                (Range_fromPositions validSStartPosition validSEndPosition)
                (selectionStartKind vs)
                (selectionStartLeftoverVisibleColumns vs
                   + column sStartPosition - column validSStartPosition)
                validPosition
                (leftoverVisibleColumns vs + column pos - column validPosition))"

text \<open>
  The four branches of \<open>_setState\<close>: the model state computed from the (validated) view
  state or validated on its own, and the view state computed from the model state or
  validated against it.
\<close>

definition modelStateFromViewState :: "'d CursorContext \<Rightarrow> SingleCursorState \<Rightarrow> SingleCursorState"
  where
  "modelStateFromViewState ctx vs =
     (let selectionStart' = validateRange (model ctx)
            (convertViewRangeToModelRange (coordinatesConverter ctx) (selectionStart vs));
          position' = validatePosition (model ctx)
            (convertViewPositionToModelPosition (coordinatesConverter ctx) (position vs))
      in mkSingleCursorState selectionStart' (selectionStartKind vs)
           (selectionStartLeftoverVisibleColumns vs) position' (leftoverVisibleColumns vs))"

definition validateModelState :: "'d CursorContext \<Rightarrow> SingleCursorState \<Rightarrow> SingleCursorState"
  where
  "validateModelState ctx ms =
     (let selectionStart' = validateRange (model ctx) (selectionStart ms);
          selectionStartLeftoverVisibleColumns' =
            (if Range_equalsRange (selectionStart ms) selectionStart'
             then selectionStartLeftoverVisibleColumns ms else 0);
          position' = validatePosition (model ctx) (position ms);
          leftoverVisibleColumns' =
            (if Position_equals (position ms) position' then leftoverVisibleColumns ms else 0)
      in mkSingleCursorState selectionStart' (selectionStartKind ms)
           selectionStartLeftoverVisibleColumns' position' leftoverVisibleColumns')"

definition viewStateFromModelState :: "'d CursorContext \<Rightarrow> SingleCursorState \<Rightarrow> SingleCursorState"
  where
  "viewStateFromModelState ctx ms =
     (let viewSelectionStart1 = convertModelPositionToViewPosition (coordinatesConverter ctx)
            (mkPosition (startLineNumber (selectionStart ms)) (startColumn (selectionStart ms)));
          viewSelectionStart2 = convertModelPositionToViewPosition (coordinatesConverter ctx)
            (mkPosition (endLineNumber (selectionStart ms)) (endColumn (selectionStart ms)));
          viewSelectionStart = mkRange (lineNumber viewSelectionStart1) (column viewSelectionStart1)
            (lineNumber viewSelectionStart2) (column viewSelectionStart2);
          viewPosition = convertModelPositionToViewPosition (coordinatesConverter ctx) (position ms)
      in mkSingleCursorState viewSelectionStart (selectionStartKind ms)
           (selectionStartLeftoverVisibleColumns ms) viewPosition (leftoverVisibleColumns ms))"

definition validateNewViewState ::
  "'d CursorContext \<Rightarrow> SingleCursorState \<Rightarrow> SingleCursorState \<Rightarrow> SingleCursorState" where
  "validateNewViewState ctx vs ms =
     (let viewSelectionStart = validateViewRange (coordinatesConverter ctx)
            (selectionStart vs) (selectionStart ms);
          viewPosition = validateViewPosition (coordinatesConverter ctx) (position vs) (position ms)
      in mkSingleCursorState viewSelectionStart (selectionStartKind ms)
           (selectionStartLeftoverVisibleColumns ms) viewPosition (leftoverVisibleColumns ms))"

text \<open>
  \<open>_setState\<close>: the view state, when given, is validated first; with neither state the method
  returns at once; otherwise both states are stored and the tracked range is refreshed.
\<close>

definition Cursor_setState ::
  "'d CursorContext \<Rightarrow> 'd \<Rightarrow> Cursor \<Rightarrow> SingleCursorState option \<Rightarrow> SingleCursorState option
     \<Rightarrow> Cursor \<times> 'd" where
  "Cursor_setState ctx d c modelState0 viewState0 =
     (let viewState1 = map_option (validateViewState (viewModel ctx)) viewState0 in
      case (modelState0, viewState1) of
        (None, None) \<Rightarrow> (c, d)
      | (None, Some vs) \<Rightarrow>
          (let ms' = modelStateFromViewState ctx vs;
               vs' = validateNewViewState ctx vs ms'
           in updateTrackedRange ctx d (c\<lparr>modelState := ms', viewState := vs'\<rparr>))
      | (Some ms, None) \<Rightarrow>
          (let ms' = validateModelState ctx ms;
               vs' = viewStateFromModelState ctx ms'
           in updateTrackedRange ctx d (c\<lparr>modelState := ms', viewState := vs'\<rparr>))
      | (Some ms, Some vs) \<Rightarrow>
          (let ms' = validateModelState ctx ms;
               vs' = validateNewViewState ctx vs ms'
           in updateTrackedRange ctx d (c\<lparr>modelState := ms', viewState := vs'\<rparr>)))"

text \<open>
  The constructor starts with no tracked range, tracking switched on, and both states at
  the start of the document.
\<close>

definition initialState :: SingleCursorState where
  "initialState = mkSingleCursorState (mkRange 1 1 1 1) Simple 0 (mkPosition 1 1) 0"

definition Cursor_new :: "'d CursorContext \<Rightarrow> 'd \<Rightarrow> Cursor \<times> 'd" where
  "Cursor_new ctx d =
     Cursor_setState ctx d
       \<lparr>modelState = initialState, viewState = initialState,
        selTrackedRange = None, trackSelection = True\<rparr>
       (Some initialState) (Some initialState)"

section \<open>JavaScript arrays and strings\<close>

text \<open>
  Reading an array out of range gives \<open>undefined\<close>; calling a method on it throws a
  \<open>TypeError\<close>. \<open>js_nth\<close> makes the first explicit and every caller turns \<open>None\<close> into the
  error. \<open>js_splice1 xs start\<close> is \<open>xs.splice(start, 1)\<close>: a negative start counts from the
  end, a start beyond the end removes nothing. \<open>charAt\<close> gives the empty string out of range.
\<close>

datatype error = TypeError

definition js_nth :: "'a list \<Rightarrow> int \<Rightarrow> 'a option" where
  "js_nth xs i = (if 0 \<le> i \<and> i < int (length xs) then Some (xs ! nat i) else None)"

definition js_splice1 :: "'a list \<Rightarrow> int \<Rightarrow> 'a list" where
  "js_splice1 xs start =
     (let len = int (length xs);
          k = (if start < 0 then max (len + start) 0 else min start len)
      in take (nat k) xs @ drop (nat k + 1) xs)"

definition charAt :: "string \<Rightarrow> int \<Rightarrow> string" where
  "charAt s i = (if 0 \<le> i \<and> i < int (length s) then [s ! nat i] else [])"

text \<open>
  \<open>Array.prototype.sort\<close> with a comparator. With a consistent comparator every engine
  returns the one stable sorted arrangement, which this insertion sort computes. With an
  inconsistent comparator the language leaves the order to the engine. The model inserts
  each element, from left to right, into the already sorted prefix, comparing the new
  element (as first argument) with the elements before it, last one first. On an array of
  two elements this is what the engine the editor runs on does: it compares the second
  element with the first and reverses the pair when the result is negative.
\<close>

fun js_insert :: "('a \<Rightarrow> 'a \<Rightarrow> int) \<Rightarrow> 'a \<Rightarrow> 'a list \<Rightarrow> 'a list" where
  "js_insert cmp x [] = [x]"
| "js_insert cmp x (y # rys) = (if cmp x y < 0 then y # js_insert cmp x rys else x # y # rys)"

definition js_sort :: "('a \<Rightarrow> 'a \<Rightarrow> int) \<Rightarrow> 'a list \<Rightarrow> 'a list" where
  "js_sort cmp xs = rev (foldl (\<lambda>racc x. js_insert cmp x racc) [] xs)"

section \<open>Delete operations\<close>

text \<open>Modelled from the spec: the enumeration EditOperationType (cursorCommon).\<close>

datatype EditOperationType =
  Other | DeletingLeft | DeletingRight | TypingOther | TypingFirstSpace | TypingConsecutiveSpace

text \<open>
  Modelled from the spec: ReplaceCommand (commands/replaceCommand), the command that
  replaces a range with a text.
\<close>

datatype ICommand = ReplaceCommand Range string

text \<open>
  Modelled from the spec: EditOperationResult (cursorCommon): the kind of the operation,
  its commands and the two undo-boundary flags.
\<close>

record EditOperationResult =
  opType :: EditOperationType
  commands :: "ICommand option list"
  shouldPushStackElementBefore :: bool
  shouldPushStackElementAfter :: bool

text \<open>
  \<open>MoveOperations.right\<close> (one grapheme-aware step to the right) and
  \<open>strings.getLeftDeleteOffset\<close> are imported; they are parameters of the functions that
  call them.
\<close>

type_synonym MoveRight = "CursorConfiguration \<Rightarrow> ICursorSimpleModel \<Rightarrow> Position \<Rightarrow> Position"

type_synonym LeftDeleteOffset = "int \<Rightarrow> string \<Rightarrow> int"

fun deleteRight_loop ::
  "MoveRight \<Rightarrow> CursorConfiguration \<Rightarrow> ICursorSimpleModel \<Rightarrow> Selection list \<Rightarrow> bool
     \<Rightarrow> bool \<times> ICommand option list" where
  "deleteRight_loop right config mdl [] flag = (flag, [])"
| "deleteRight_loop right config mdl (sel # rest) flag =
     (let deleteSelection =
            (if Range_isEmpty (asRange sel)
             then (let pos = Selection_getPosition sel;
                       rightOfPosition = right config mdl pos
                   in mkRange (lineNumber rightOfPosition) (column rightOfPosition)
                        (lineNumber pos) (column pos))
             else asRange sel)
      in if Range_isEmpty deleteSelection
         then (let (f, cs) = deleteRight_loop right config mdl rest flag in (f, None # cs))
         else (let flag' = (if startLineNumber deleteSelection \<noteq> endLineNumber deleteSelection
                            then True else flag);
                   (f, cs) = deleteRight_loop right config mdl rest flag'
               in (f, Some (ReplaceCommand deleteSelection []) # cs)))"

definition deleteRight ::
  "MoveRight \<Rightarrow> EditOperationType \<Rightarrow> CursorConfiguration \<Rightarrow> ICursorSimpleModel \<Rightarrow> Selection list
     \<Rightarrow> bool \<times> ICommand option list" where
  "deleteRight right prevEditOperationType config mdl selections =
     deleteRight_loop right config mdl selections (prevEditOperationType \<noteq> DeletingRight)"

text \<open>
  Modelled from the spec: \<open>isQuote\<close> (cursorCommon): the three quote
  characters.
\<close>

definition isQuote :: "string \<Rightarrow> bool" where
  "isQuote ch \<longleftrightarrow> ch = [CHR 0x27] \<or> ch = [CHR 0x22] \<or> ch = [CHR 0x60]"

fun isAutoClosingPairDelete_loop ::
  "EditorAutoClosingEditStrategy \<Rightarrow> EditorAutoClosingStrategy \<Rightarrow> EditorAutoClosingStrategy
     \<Rightarrow> (string \<rightharpoonup> StandardAutoClosingPairConditional list) \<Rightarrow> ICursorSimpleModel
     \<Rightarrow> Range list \<Rightarrow> Selection list \<Rightarrow> bool" where
  "isAutoClosingPairDelete_loop acDelete acBrackets acQuotes pairsOpen mdl autoClosed [] = True"
| "isAutoClosingPairDelete_loop acDelete acBrackets acQuotes pairsOpen mdl autoClosed (sel # rest) =
     (let pos = Selection_getPosition sel in
      if \<not> Range_isEmpty (asRange sel) then False
      else let lineText = getLineContent mdl (lineNumber pos) in
      if column pos < 2 \<or> column pos \<ge> int (length lineText) + 1 then False
      else let character = charAt lineText (column pos - 2) in
      case pairsOpen character of
        None \<Rightarrow> False
      | Some autoClosingPairCandidates \<Rightarrow>
          if (if isQuote character then acQuotes = ACS_never else acBrackets = ACS_never)
          then False
          else let afterCharacter = charAt lineText (column pos - 1);
                   foundAutoClosingPair =
                     list_ex (\<lambda>cand. pairOpen cand = character \<and> pairClose cand = afterCharacter)
                       autoClosingPairCandidates
          in if \<not> foundAutoClosingPair then False
             else if acDelete = ACE_auto
                     \<and> \<not> list_ex (\<lambda>r. lineNumber pos = startLineNumber r
                                        \<and> column pos = startColumn r) autoClosed
             then False
             else isAutoClosingPairDelete_loop acDelete acBrackets acQuotes pairsOpen mdl
                    autoClosed rest)"

definition isAutoClosingPairDelete ::
  "EditorAutoClosingEditStrategy \<Rightarrow> EditorAutoClosingStrategy \<Rightarrow> EditorAutoClosingStrategy
     \<Rightarrow> (string \<rightharpoonup> StandardAutoClosingPairConditional list) \<Rightarrow> ICursorSimpleModel
     \<Rightarrow> Selection list \<Rightarrow> Range list \<Rightarrow> bool" where
  "isAutoClosingPairDelete acDelete acBrackets acQuotes pairsOpen mdl selections autoClosed =
     (if acBrackets = ACS_never \<and> acQuotes = ACS_never then False
      else if acDelete = ACE_never then False
      else isAutoClosingPairDelete_loop acDelete acBrackets acQuotes pairsOpen mdl autoClosed
             selections)"

definition runAutoClosingPairDelete ::
  "CursorConfiguration \<Rightarrow> ICursorSimpleModel \<Rightarrow> Selection list \<Rightarrow> bool \<times> ICommand option list"
  where
  "runAutoClosingPairDelete config mdl selections =
     (True, map (\<lambda>sel. let pos = Selection_getPosition sel in
                   Some (ReplaceCommand
                     (mkRange (lineNumber pos) (column pos - 1) (lineNumber pos) (column pos + 1))
                     [])) selections)"

text \<open>
  Modelled from the spec: \<open>strings.firstNonWhitespaceIndex\<close> (the index of the first
  character that is neither a space nor a tab, or \<open>-1\<close>) and
  \<open>CursorColumns.prevIndentTabStop\<close> (the indent stop before a visible column) are imported.
  \<open>js_rem\<close> is the remainder operator of JavaScript, which truncates towards zero.
\<close>

fun firstNonWhitespaceIndex_from :: "string \<Rightarrow> int \<Rightarrow> int" where
  "firstNonWhitespaceIndex_from [] i = -1"
| "firstNonWhitespaceIndex_from (ch # rest) i =
     (if ch \<noteq> CHR '' '' \<and> ch \<noteq> CHR 0x09 then i else firstNonWhitespaceIndex_from rest (i + 1))"

text \<open>
  Modelled from the spec: strings.firstNonWhitespaceIndex, its loop starting at index 0.
\<close>

definition firstNonWhitespaceIndex :: "string \<Rightarrow> int" where
  "firstNonWhitespaceIndex str = firstNonWhitespaceIndex_from str 0"

text \<open>
  Modelled from the spec: the remainder \<open>%\<close> of JavaScript truncates towards
  zero (the indent size is at least 1, so the divisor is not zero).
\<close>

definition js_rem :: "int \<Rightarrow> int \<Rightarrow> int" where
  "js_rem a b = a - b * (if (a < 0) \<noteq> (b < 0) then - (\<bar>a\<bar> div \<bar>b\<bar>) else \<bar>a\<bar> div \<bar>b\<bar>)"

text \<open>
  Modelled from the spec: CursorColumns.prevIndentTabStop (core/cursorColumns), the indent
  stop before a visible column.
\<close>

definition prevIndentTabStop :: "int \<Rightarrow> int \<Rightarrow> int" where
  "prevIndentTabStop col indentSz = max 0 (col - 1 - js_rem (col - 1) indentSz)"

definition getPositionAfterDeleteLeft ::
  "LeftDeleteOffset \<Rightarrow> Position \<Rightarrow> ICursorSimpleModel \<Rightarrow> Position" where
  "getPositionAfterDeleteLeft getLeftDeleteOffset pos mdl =
     (if column pos > 1
      then (let idx = getLeftDeleteOffset (column pos - 1) (getLineContent mdl (lineNumber pos))
            in mkPosition (lineNumber pos) (idx + 1))
      else if lineNumber pos > 1
      then (let newLine = lineNumber pos - 1
            in mkPosition newLine (getLineMaxColumn mdl newLine))
      else pos)"

definition getDeleteRange ::
  "LeftDeleteOffset \<Rightarrow> Selection \<Rightarrow> ICursorSimpleModel \<Rightarrow> CursorConfiguration \<Rightarrow> Range" where
  "getDeleteRange getLeftDeleteOffset sel mdl config =
     (if \<not> Range_isEmpty (asRange sel) then asRange sel
      else let pos = Selection_getPosition sel;
               lineContent = getLineContent mdl (lineNumber pos);
               lastIndentationColumn =
                 (if firstNonWhitespaceIndex lineContent = -1 then int (length lineContent) + 1
                  else firstNonWhitespaceIndex lineContent + 1)
      in if useTabStops config \<and> column pos > 1 \<and> column pos \<le> lastIndentationColumn
         then (let fromVisibleColumn = visibleColumnFromColumn config mdl pos;
                   toVisibleColumn = prevIndentTabStop fromVisibleColumn (indentSize config);
                   toColumn = columnFromVisibleColumn config mdl (lineNumber pos) toVisibleColumn
               in mkRange (lineNumber pos) toColumn (lineNumber pos) (column pos))
         else Range_fromPositions (getPositionAfterDeleteLeft getLeftDeleteOffset pos mdl) pos)"

fun deleteLeft_loop ::
  "LeftDeleteOffset \<Rightarrow> CursorConfiguration \<Rightarrow> ICursorSimpleModel \<Rightarrow> Selection list \<Rightarrow> bool
     \<Rightarrow> bool \<times> ICommand option list" where
  "deleteLeft_loop glo config mdl [] flag = (flag, [])"
| "deleteLeft_loop glo config mdl (sel # rest) flag =
     (let deleteRange = getDeleteRange glo sel mdl config
      in if Range_isEmpty deleteRange
         then (let (f, cs) = deleteLeft_loop glo config mdl rest flag in (f, None # cs))
         else (let flag' = (if startLineNumber deleteRange \<noteq> endLineNumber deleteRange
                            then True else flag);
                   (f, cs) = deleteLeft_loop glo config mdl rest flag'
               in (f, Some (ReplaceCommand deleteRange []) # cs)))"

definition deleteLeft ::
  "LeftDeleteOffset \<Rightarrow> EditOperationType \<Rightarrow> CursorConfiguration \<Rightarrow> ICursorSimpleModel
     \<Rightarrow> Selection list \<Rightarrow> Range list \<Rightarrow> bool \<times> ICommand option list" where
  "deleteLeft glo prevEditOperationType config mdl selections autoClosedCharacters =
     (if isAutoClosingPairDelete (autoClosingDelete config) (autoClosingBrackets config)
           (autoClosingQuotes config) (autoClosingPairsOpenByEnd config) mdl selections
           autoClosedCharacters
      then runAutoClosingPairDelete config mdl selections
      else deleteLeft_loop glo config mdl selections (prevEditOperationType \<noteq> DeletingLeft))"

text \<open>
  \<open>cut\<close> sorts the array of selections in place with a comparator that compares the start
  of its first argument with the end of its second, then walks the sorted array remembering
  the last full-line range it cut.
\<close>

definition cut_comparator :: "Selection \<Rightarrow> Selection \<Rightarrow> int" where
  "cut_comparator a b =
     Position_compare (Range_getStartPosition (asRange a)) (Range_getEndPosition (asRange b))"

fun cut_loop ::
  "CursorConfiguration \<Rightarrow> ICursorSimpleModel \<Rightarrow> Range option \<Rightarrow> Selection list
     \<Rightarrow> ICommand option list" where
  "cut_loop config mdl lastCutRange [] = []"
| "cut_loop config mdl lastCutRange (sel # rest) =
     (if Range_isEmpty (asRange sel) then
        (if emptySelectionClipboard config then
           (let pos = Selection_getPosition sel;
                deleteSelection =
                  (if lineNumber pos < getLineCount mdl
                   then mkRange (lineNumber pos) 1 (lineNumber pos + 1) 1
                   else if lineNumber pos > 1
                           \<and> map_option endLineNumber lastCutRange \<noteq> Some (lineNumber pos)
                   then mkRange (lineNumber pos - 1) (getLineMaxColumn mdl (lineNumber pos - 1))
                          (lineNumber pos) (getLineMaxColumn mdl (lineNumber pos))
                   else mkRange (lineNumber pos) 1
                          (lineNumber pos) (getLineMaxColumn mdl (lineNumber pos)))
            in (if \<not> Range_isEmpty deleteSelection
                then Some (ReplaceCommand deleteSelection []) else None)
               # cut_loop config mdl (Some deleteSelection) rest)
         else None # cut_loop config mdl lastCutRange rest)
      else Some (ReplaceCommand (asRange sel) []) # cut_loop config mdl lastCutRange rest)"

definition cut_sorted :: "Selection list \<Rightarrow> Selection list" where
  "cut_sorted selections = js_sort cut_comparator selections"

definition cut ::
  "CursorConfiguration \<Rightarrow> ICursorSimpleModel \<Rightarrow> Selection list \<Rightarrow> EditOperationResult" where
  "cut config mdl selections =
     \<lparr>opType = Other, commands = cut_loop config mdl None (cut_sorted selections),
      shouldPushStackElementBefore = True, shouldPushStackElementAfter = True\<rparr>"

section \<open>Cursor collection\<close>

text \<open>
  Cursors are objects: the array \<open>this.cursors\<close> and the copy that \<open>normalize\<close> takes of it
  hold references to the same objects, and a \<open>setState\<close> through one array is seen through
  the other. A reference is a natural number and \<open>heap\<close> gives the object behind it;
  \<open>nextRef\<close> is the next unused reference. \<open>doc\<close> is the document's tracked-range state.
  \<open>removedAt\<close> records, most recent first, the array indices at which
  \<open>_removeSecondaryCursor\<close> has disposed and spliced a cursor.
\<close>

record 'd CursorCollection =
  cursorContext :: "'d CursorContext"
  cursors :: "nat list"
  lastAddedCursorIndex :: int
  heap :: "nat \<Rightarrow> Cursor"
  nextRef :: nat
  doc :: 'd
  removedAt :: "int list"

definition blankCursor :: Cursor where
  "blankCursor = \<lparr>modelState = initialState, viewState = initialState,
                   selTrackedRange = None, trackSelection = True\<rparr>"

definition allocCursor :: "'d CursorCollection \<Rightarrow> nat \<times> 'd CursorCollection" where
  "allocCursor st =
     (let (c, d') = Cursor_new (cursorContext st) (doc st)
      in (nextRef st,
          st\<lparr>heap := (heap st)(nextRef st := c), nextRef := Suc (nextRef st), doc := d'\<rparr>))"

definition CursorCollection_new :: "'d CursorContext \<Rightarrow> 'd \<Rightarrow> 'd CursorCollection" where
  "CursorCollection_new ctx d =
     (let (r, st) = allocCursor
            \<lparr>cursorContext = ctx, cursors = [], lastAddedCursorIndex = 0,
             heap = (\<lambda>r. blankCursor), nextRef = 0, doc = d, removedAt = []\<rparr>
      in st\<lparr>cursors := [r], lastAddedCursorIndex := 0\<rparr>)"

definition setStateAt ::
  "'d CursorCollection \<Rightarrow> nat \<Rightarrow> SingleCursorState option \<Rightarrow> SingleCursorState option
     \<Rightarrow> 'd CursorCollection" where
  "setStateAt st r ms vs =
     (let (c, d') = Cursor_setState (cursorContext st) (doc st) (heap st r) ms vs
      in st\<lparr>heap := (heap st)(r := c), doc := d'\<rparr>)"

definition disposeAt :: "'d CursorCollection \<Rightarrow> nat \<Rightarrow> 'd CursorCollection" where
  "disposeAt st r =
     (let (c, d') = Cursor_dispose (cursorContext st) (doc st) (heap st r)
      in st\<lparr>heap := (heap st)(r := c), doc := d'\<rparr>)"

definition getSelections :: "'d CursorCollection \<Rightarrow> Selection list" where
  "getSelections st = map (\<lambda>r. selection (modelState (heap st r))) (cursors st)"

definition addSecondaryCursor :: "'d CursorCollection \<Rightarrow> 'd CursorCollection" where
  "addSecondaryCursor st =
     (let (r, st1) = allocCursor st;
          st2 = st1\<lparr>cursors := cursors st1 @ [r]\<rparr>
      in st2\<lparr>lastAddedCursorIndex := int (length (cursors st2)) - 1\<rparr>)"

definition removeSecondaryCursor ::
  "'d CursorCollection \<Rightarrow> int \<Rightarrow> error + 'd CursorCollection" where
  "removeSecondaryCursor st removeIndex =
     (let st1 = (if lastAddedCursorIndex st \<ge> removeIndex + 1
                 then st\<lparr>lastAddedCursorIndex := lastAddedCursorIndex st - 1\<rparr> else st)
      in case js_nth (cursors st1) (removeIndex + 1) of
           None \<Rightarrow> Inl TypeError
         | Some r \<Rightarrow>
             (let st2 = disposeAt st1 r
              in Inr (st2\<lparr>cursors := js_splice1 (cursors st2) (removeIndex + 1),
                         removedAt := (removeIndex + 1) # removedAt st2\<rparr>)))"

fun addSecondaryCursors :: "nat \<Rightarrow> 'd CursorCollection \<Rightarrow> 'd CursorCollection" where
  "addSecondaryCursors 0 st = st"
| "addSecondaryCursors (Suc n) st = addSecondaryCursors n (addSecondaryCursor st)"

fun removeSecondaryCursors :: "nat \<Rightarrow> 'd CursorCollection \<Rightarrow> error + 'd CursorCollection" where
  "removeSecondaryCursors 0 st = Inr st"
| "removeSecondaryCursors (Suc n) st =
     (case removeSecondaryCursor st (int (length (cursors st)) - 2) of
        Inl e \<Rightarrow> Inl e
      | Inr st' \<Rightarrow> removeSecondaryCursors n st')"

fun setSecondaryStates_loop ::
  "'d CursorCollection \<Rightarrow> PartialCursorState list \<Rightarrow> int \<Rightarrow> error + 'd CursorCollection" where
  "setSecondaryStates_loop st [] i = Inr st"
| "setSecondaryStates_loop st (s # rest) i =
     (case js_nth (cursors st) (i + 1) of
        None \<Rightarrow> Inl TypeError
      | Some r \<Rightarrow> setSecondaryStates_loop (setStateAt st r (pModelState s) (pViewState s)) rest
                    (i + 1))"

definition setSecondaryStates ::
  "'d CursorCollection \<Rightarrow> PartialCursorState list \<Rightarrow> error + 'd CursorCollection" where
  "setSecondaryStates st secondaryStates =
     (let secondaryCursorsLength = int (length (cursors st)) - 1;
          secondaryStatesLength = int (length secondaryStates)
      in case (if secondaryCursorsLength < secondaryStatesLength
               then Inr (addSecondaryCursors
                           (nat (secondaryStatesLength - secondaryCursorsLength)) st)
               else if secondaryCursorsLength > secondaryStatesLength
               then removeSecondaryCursors
                      (nat (secondaryCursorsLength - secondaryStatesLength)) st
               else Inr st) of
           Inl e \<Rightarrow> Inl e
         | Inr st' \<Rightarrow> setSecondaryStates_loop st' secondaryStates 0)"

definition setStates ::
  "'d CursorCollection \<Rightarrow> PartialCursorState list option \<Rightarrow> error + 'd CursorCollection" where
  "setStates st states =
     (case states of
        None \<Rightarrow> Inr st
      | Some ss \<Rightarrow>
          (case js_nth (cursors st) 0 of
             None \<Rightarrow> Inl TypeError
           | Some r0 \<Rightarrow>
               (case js_nth ss 0 of
                  None \<Rightarrow> Inl TypeError
                | Some s0 \<Rightarrow>
                    setSecondaryStates (setStateAt st r0 (pModelState s0) (pViewState s0))
                      (drop 1 ss))))"

definition killSecondaryCursors :: "'d CursorCollection \<Rightarrow> error + 'd CursorCollection" where
  "killSecondaryCursors st = setSecondaryStates st []"

subsection \<open>Normalization\<close>

record SortedCursor =
  index :: int
  sortedSelection :: Selection

definition compareSortedCursors :: "SortedCursor \<Rightarrow> SortedCursor \<Rightarrow> int" where
  "compareSortedCursors a b =
     Range_compareRangesUsingStarts (asRange (sortedSelection a)) (asRange (sortedSelection b))"

definition shouldMergeCursors :: "Selection \<Rightarrow> Selection \<Rightarrow> bool" where
  "shouldMergeCursors currentSelection nextSelection =
     (if Range_isEmpty (asRange nextSelection) \<or> Range_isEmpty (asRange currentSelection)
      then Position_isBeforeOrEqual (Range_getStartPosition (asRange nextSelection))
             (Range_getEndPosition (asRange currentSelection))
      else Position_isBefore (Range_getStartPosition (asRange nextSelection))
             (Range_getEndPosition (asRange currentSelection)))"

definition isLTR :: "Selection \<Rightarrow> bool" where
  "isLTR s \<longleftrightarrow> selectionStartLineNumber s = startLineNumber (asRange s)
              \<and> selectionStartColumn s = startColumn (asRange s)"

text \<open>
  The body of the loop once two neighbours are to be merged. \<open>mergeWinner\<close> is the block
  guarded by \<open>!looserSelection.equalsSelection(winnerSelection)\<close>: the winner takes the
  union of the two selections, with the direction of the loser when the loser is the cursor
  added last. \<open>mergeCursors\<close> then moves the indices above the loser's down by one and removes
  the loser from the copy, from the sorted snapshot and from the collection.
\<close>

definition mergeWinner ::
  "'d CursorCollection \<Rightarrow> nat list \<Rightarrow> SortedCursor list \<Rightarrow> nat \<Rightarrow> nat
     \<Rightarrow> error + ('d CursorCollection \<times> SortedCursor list)" where
  "mergeWinner st cs sortedCursors winnerSortedCursorIndex looserSortedCursorIndex =
     (let looserIndex = index (sortedCursors ! looserSortedCursorIndex);
          winnerIndex = index (sortedCursors ! winnerSortedCursorIndex);
          looserSelection = sortedSelection (sortedCursors ! looserSortedCursorIndex);
          winnerSelection = sortedSelection (sortedCursors ! winnerSortedCursorIndex)
      in if \<not> Selection_equalsSelection looserSelection winnerSelection
         then (let resultingRange =
                     Range_plusRange (asRange looserSelection) (asRange winnerSelection);
                   looserSelectionIsLTR = isLTR looserSelection;
                   winnerSelectionIsLTR = isLTR winnerSelection;
                   (resultingSelectionIsLTR, st1) =
                     (if looserIndex = lastAddedCursorIndex st
                      then (looserSelectionIsLTR, st\<lparr>lastAddedCursorIndex := winnerIndex\<rparr>)
                      else (winnerSelectionIsLTR, st));
                   resultingSelection =
                     (if resultingSelectionIsLTR
                      then mkSelection (startLineNumber resultingRange)
                             (startColumn resultingRange) (endLineNumber resultingRange)
                             (endColumn resultingRange)
                      else mkSelection (endLineNumber resultingRange)
                             (endColumn resultingRange) (startLineNumber resultingRange)
                             (startColumn resultingRange));
                   sorted1 = sortedCursors[winnerSortedCursorIndex :=
                               (sortedCursors ! winnerSortedCursorIndex)
                                 \<lparr>sortedSelection := resultingSelection\<rparr>];
                   resultingState = CursorState_fromModelSelection resultingSelection
               in case js_nth cs winnerIndex of
                    None \<Rightarrow> Inl TypeError
                  | Some r \<Rightarrow> Inr (setStateAt st1 r (pModelState resultingState)
                                     (pViewState resultingState), sorted1))
         else Inr (st, sortedCursors))"

definition mergeCursors ::
  "'d CursorCollection \<Rightarrow> nat list \<Rightarrow> SortedCursor list \<Rightarrow> nat
     \<Rightarrow> error + ('d CursorCollection \<times> nat list \<times> SortedCursor list)" where
  "mergeCursors st cs sortedCursors sortedCursorIndex =
     (let current = sortedCursors ! sortedCursorIndex;
          next = sortedCursors ! (sortedCursorIndex + 1);
          winnerSortedCursorIndex =
            (if index current < index next then sortedCursorIndex else sortedCursorIndex + 1);
          looserSortedCursorIndex =
            (if index current < index next then sortedCursorIndex + 1 else sortedCursorIndex);
          looserIndex = index (sortedCursors ! looserSortedCursorIndex)
      in case mergeWinner st cs sortedCursors winnerSortedCursorIndex looserSortedCursorIndex of
           Inl e \<Rightarrow> Inl e
         | Inr (st2, sorted2) \<Rightarrow>
             (let sorted3 = map (\<lambda>sc. if index sc > looserIndex
                                       then sc\<lparr>index := index sc - 1\<rparr> else sc) sorted2;
                  cs' = js_splice1 cs looserIndex;
                  sorted4 = js_splice1 sorted3 (int looserSortedCursorIndex)
              in case removeSecondaryCursor st2 (looserIndex - 1) of
                   Inl e \<Rightarrow> Inl e
                 | Inr st3 \<Rightarrow> Inr (st3, cs', sorted4)))"

text \<open>
  The loop of \<open>normalize\<close>. After a merge the loop index is decremented and then
  incremented again, so the same position of the shortened snapshot is examined next.
\<close>

function normalize_loop ::
  "'d CursorCollection \<Rightarrow> nat list \<Rightarrow> SortedCursor list \<Rightarrow> nat \<Rightarrow> error + 'd CursorCollection"
  where
  "normalize_loop st cs sortedCursors sortedCursorIndex =
     (if int sortedCursorIndex < int (length sortedCursors) - 1 then
        (if \<not> multiCursorMergeOverlapping (cursorConfig (cursorContext st))
         then normalize_loop st cs sortedCursors (sortedCursorIndex + 1)
         else if shouldMergeCursors (sortedSelection (sortedCursors ! sortedCursorIndex))
                   (sortedSelection (sortedCursors ! (sortedCursorIndex + 1)))
         then (case mergeCursors st cs sortedCursors sortedCursorIndex of
                 Inl e \<Rightarrow> Inl e
               | Inr (st', cs', srt') \<Rightarrow> normalize_loop st' cs' srt' sortedCursorIndex)
         else normalize_loop st cs sortedCursors (sortedCursorIndex + 1))
      else Inr st)"
  by pat_completeness auto
termination
proof (relation "measure (\<lambda>(st, cs, srt, i). 2 * length srt - i)")
  show "wf (measure (\<lambda>(st :: 'd CursorCollection, cs :: nat list, srt :: SortedCursor list, i).
          2 * length srt - i))"
    by simp
next
  fix st :: "'d CursorCollection" and cs :: "nat list" and sortedCursors :: "SortedCursor list"
    and sortedCursorIndex :: nat
  assume "int sortedCursorIndex < int (length sortedCursors) - 1"
  then show "((st, cs, sortedCursors, sortedCursorIndex + 1), st, cs, sortedCursors,
              sortedCursorIndex) \<in> measure (\<lambda>(st, cs, srt, i). 2 * length srt - i)"
    by simp
next
  fix st :: "'d CursorCollection" and cs :: "nat list" and sortedCursors :: "SortedCursor list"
    and sortedCursorIndex :: nat and x2 x y xa ya
  assume a: "int sortedCursorIndex < int (length sortedCursors) - 1"
    and m: "mergeCursors st cs sortedCursors sortedCursorIndex = Inr x2"
    and "(x, y) = x2" "(xa, ya) = y"
  then have m': "mergeCursors st cs sortedCursors sortedCursorIndex = Inr (x, xa, ya)"
    by auto
  have splice: "length (js_splice1 zs k) = length zs - 1"
    if "0 \<le> k" "k < int (length zs)" for zs :: "SortedCursor list" and k
    using that by (auto simp: js_splice1_def Let_def min_def)
  from m' a have "length ya = length sortedCursors - 1"
    unfolding mergeCursors_def mergeWinner_def Let_def
    by (auto split: if_splits sum.splits option.splits prod.splits simp: splice)
  with a show "((x, xa, ya, sortedCursorIndex), st, cs, sortedCursors, sortedCursorIndex)
                 \<in> measure (\<lambda>(st, cs, srt, i). 2 * length srt - i)"
    by simp
next
  fix st :: "'d CursorCollection" and cs :: "nat list" and sortedCursors :: "SortedCursor list"
    and sortedCursorIndex :: nat
  assume "int sortedCursorIndex < int (length sortedCursors) - 1"
  then show "((st, cs, sortedCursors, sortedCursorIndex + 1), st, cs, sortedCursors,
              sortedCursorIndex) \<in> measure (\<lambda>(st, cs, srt, i). 2 * length srt - i)"
    by simp
qed

declare normalize_loop.simps [simp del]

text \<open>
  The snapshot \<open>normalize\<close> takes: every cursor's selection tagged with its index, sorted
  by the start of the selection (and, for equal starts, by its end).
\<close>

definition sortedSnapshot :: "'d CursorCollection \<Rightarrow> SortedCursor list" where
  "sortedSnapshot st =
     js_sort compareSortedCursors
       (map (\<lambda>i. \<lparr>index = int i,
                   sortedSelection = selection (modelState (heap st (cursors st ! i)))\<rparr>)
            [0..<length (cursors st)])"

definition normalize :: "'d CursorCollection \<Rightarrow> error + 'd CursorCollection" where
  "normalize st =
     (if length (cursors st) = 1 then Inr st
      else normalize_loop st (cursors st) (sortedSnapshot st) 0)"

section \<open>A concrete document, view and configuration\<close>

text \<open>
  A document of two lines, \<open>abcdefgh\<close> and \<open>xy\<close>, whose validators clamp a position into
  the text; a view that shows the document as it is; and a configuration with merging of
  overlapping cursors, tab stops of width four and the bracket pair \<open>()\<close>.
\<close>

definition ex_lines :: "string list" where
  "ex_lines = [''abcdefgh'', ''xy'']"

definition ex_validatePosition :: "Position \<Rightarrow> Position" where
  "ex_validatePosition p =
     (let l = max 1 (min (int (length ex_lines)) (lineNumber p));
          c = max 1 (min (int (length (ex_lines ! nat (l - 1))) + 1) (column p))
      in mkPosition l c)"

definition ex_model :: "nat ITextModel" where
  "ex_model = \<lparr>validatePosition = ex_validatePosition,
     validateRange = (\<lambda>r. Range_fromPositions (ex_validatePosition (Range_getStartPosition r))
                                              (ex_validatePosition (Range_getEndPosition r))),
     setTrackedRange = (\<lambda>d i r s. (if r = None then None else Some ''range'', d + 1))\<rparr>"

definition ex_viewModel :: ICursorSimpleModel where
  "ex_viewModel = \<lparr>getLineCount = int (length ex_lines),
     getLineContent = (\<lambda>l. ex_lines ! nat (l - 1)),
     getLineMaxColumn = (\<lambda>l. int (length (ex_lines ! nat (l - 1))) + 1),
     normalizePosition = (\<lambda>p a. p)\<rparr>"

definition ex_viewModel_clamp :: ICursorSimpleModel where
  "ex_viewModel_clamp = ex_viewModel\<lparr>normalizePosition := (\<lambda>p a. ex_validatePosition p)\<rparr>"

definition ex_converter :: ICoordinatesConverter where
  "ex_converter = \<lparr>convertViewPositionToModelPosition = (\<lambda>p. p),
     convertViewRangeToModelRange = (\<lambda>r. r),
     convertModelPositionToViewPosition = (\<lambda>p. p),
     validateViewPosition = (\<lambda>p mp. p),
     validateViewRange = (\<lambda>r mr. r)\<rparr>"

text \<open>
  A converter for a view in which line 2 is hidden (folded): its positions are shown at the
  end of line 1.
\<close>

definition ex_converter_folded :: ICoordinatesConverter where
  "ex_converter_folded = ex_converter\<lparr>convertModelPositionToViewPosition :=
      (\<lambda>p. if lineNumber p = 2 then mkPosition 1 9 else p)\<rparr>"

definition ex_config :: CursorConfiguration where
  "ex_config = \<lparr>multiCursorMergeOverlapping = True, useTabStops = True, indentSize = 4,
     emptySelectionClipboard = True, autoClosingDelete = ACE_always,
     autoClosingBrackets = ACS_languageDefined, autoClosingQuotes = ACS_languageDefined,
     autoClosingPairsOpenByEnd = [''('' \<mapsto> [\<lparr>pairOpen = ''('', pairClose = '')''\<rparr>]],
     visibleColumnFromColumn = (\<lambda>m p. column p - 1),
     columnFromVisibleColumn = (\<lambda>m l v. v + 1)\<rparr>"

definition ex_ctx :: "nat CursorContext" where
  "ex_ctx = \<lparr>model = ex_model, viewModel = ex_viewModel, coordinatesConverter = ex_converter,
              cursorConfig = ex_config\<rparr>"

definition ex_ctx_clamp :: "nat CursorContext" where
  "ex_ctx_clamp = ex_ctx\<lparr>viewModel := ex_viewModel_clamp\<rparr>"

definition ex_ctx_folded :: "nat CursorContext" where
  "ex_ctx_folded = ex_ctx\<lparr>coordinatesConverter := ex_converter_folded\<rparr>"

definition caretState :: "int \<Rightarrow> int \<Rightarrow> int \<Rightarrow> SingleCursorState" where
  "caretState l c left = mkSingleCursorState (mkRange l c l c) Simple left (mkPosition l c) left"

text \<open>
  A document of one line with the given content, a step to the right that moves one
  character and wraps to the next line, and a left-delete offset of one character.
\<close>

definition lineModel :: "string \<Rightarrow> ICursorSimpleModel" where
  "lineModel content = \<lparr>getLineCount = 1, getLineContent = (\<lambda>l. content),
     getLineMaxColumn = (\<lambda>l. int (length content) + 1), normalizePosition = (\<lambda>p a. p)\<rparr>"

definition ex_right :: MoveRight where
  "ex_right config mdl p =
     (if column p < getLineMaxColumn mdl (lineNumber p) then mkPosition (lineNumber p) (column p + 1)
      else if lineNumber p < getLineCount mdl then mkPosition (lineNumber p + 1) 1
      else p)"

definition ex_leftDeleteOffset :: LeftDeleteOffset where
  "ex_leftDeleteOffset offset str = offset - 1"

text \<open>
  The collection as constructed on the concrete document, and the collection after two
  overlapping selections, from (1, 1) to (1, 5) and from (1, 3) to (1, 8), have been set.
\<close>

definition ex_collection :: "nat CursorCollection" where
  "ex_collection = CursorCollection_new ex_ctx 0"

definition ex_overlapping :: "nat CursorCollection" where
  "ex_overlapping =
     (case setStates ex_collection
             (Some [CursorState_fromModelSelection (mkSelection 1 1 1 5),
                    CursorState_fromModelSelection (mkSelection 1 3 1 8)]) of
        Inr st \<Rightarrow> st
      | Inl e \<Rightarrow> ex_collection)"

section \<open>Basic facts\<close>

lemma Position_equals_iff: "Position_equals a b \<longleftrightarrow> a = b"
  by (cases a, cases b) (simp add: Position_equals_def)

lemma Range_equalsRange_iff: "Range_equalsRange a b \<longleftrightarrow> a = b"
  by (cases a, cases b) (simp add: Range_equalsRange_def)

section \<open>Setting the state of a cursor\<close>

lemma updateTrackedRange_states [simp]:
  "modelState (fst (updateTrackedRange ctx d c)) = modelState c"
  "viewState (fst (updateTrackedRange ctx d c)) = viewState c"
  by (simp_all add: updateTrackedRange_def Let_def split: prod.splits)

lemma setState_model_given:
  "modelState (fst (Cursor_setState ctx d c (Some ms) vso)) = validateModelState ctx ms"
  "viewState (fst (Cursor_setState ctx d c (Some ms) None))
     = viewStateFromModelState ctx (validateModelState ctx ms)"
  "viewState (fst (Cursor_setState ctx d c (Some ms) (Some vs)))
     = validateNewViewState ctx (validateViewState (viewModel ctx) vs) (validateModelState ctx ms)"
  by (cases vso; simp add: Cursor_setState_def Let_def)+

lemma setState_view_only:
  "modelState (fst (Cursor_setState ctx d c None (Some vs)))
     = modelStateFromViewState ctx (validateViewState (viewModel ctx) vs)"
  "viewState (fst (Cursor_setState ctx d c None (Some vs)))
     = validateNewViewState ctx (validateViewState (viewModel ctx) vs)
         (modelStateFromViewState ctx (validateViewState (viewModel ctx) vs))"
  by (simp_all add: Cursor_setState_def Let_def)

lemma validateViewState_leftover:
  "leftoverVisibleColumns (validateViewState vm vs)
     = leftoverVisibleColumns vs + column (position vs)
         - column (normalizePosition vm (position vs) None_affinity)"
  "selectionStartLeftoverVisibleColumns (validateViewState vm vs)
     = selectionStartLeftoverVisibleColumns vs
         + column (Range_getStartPosition (selectionStart vs))
         - column (normalizePosition vm (Range_getStartPosition (selectionStart vs)) None_affinity)"
  by (auto simp: validateViewState_def Let_def validatePositionWithCache_def Position_equals_iff
        mkSingleCursorState_def)

text \<open>
  C9. The view-state validation with its one-entry position cache returns the same state
  as the variant that hands the primary position, the selection-start position and the
  selection-end position to \<open>normalizePosition\<close> itself, for every view model and state.
\<close>

theorem validateViewState_cache_refines: "validateViewState vm vs = validateViewState_direct vm vs"
  unfolding validateViewState_def validateViewState_direct_def Let_def
  by (simp add: validatePositionWithCache_def Position_equals_iff)

theorem validateViewState_cache_refines_witness:
  "validateViewState ex_viewModel_clamp (caretState 2 7 0)
     = validateViewState_direct ex_viewModel_clamp (caretState 2 7 0)
   \<and> validateViewState ex_viewModel_clamp (caretState 2 7 0) = caretState 2 3 4"
proof -
  have e: "validateViewState_direct ex_viewModel_clamp (caretState 2 7 0) = caretState 2 3 4"
    by code_simp
  show ?thesis
    using validateViewState_cache_refines [of ex_viewModel_clamp "caretState 2 7 0"] e
    by simp
qed

text \<open>
  C4 (amended). When a model state is supplied, each leftover-columns field of both
  resulting states is the supplied model state's field if document validation leaves the
  position (the selection-start range) unchanged, and zero otherwise. When only a view state
  is supplied, each leftover-columns field of both resulting states is the supplied field
  plus the difference between the column of the position (the start of the selection-start
  range) and the column \<open>normalizePosition\<close> gives for it; it is not reset to zero.
\<close>

theorem setState_leftover_columns:
  "(let c' = fst (Cursor_setState ctx d c (Some ms) vso) in
      leftoverVisibleColumns (modelState c')
        = (if validatePosition (model ctx) (position ms) = position ms
           then leftoverVisibleColumns ms else 0)
      \<and> selectionStartLeftoverVisibleColumns (modelState c')
        = (if validateRange (model ctx) (selectionStart ms) = selectionStart ms
           then selectionStartLeftoverVisibleColumns ms else 0)
      \<and> leftoverVisibleColumns (viewState c') = leftoverVisibleColumns (modelState c')
      \<and> selectionStartLeftoverVisibleColumns (viewState c')
        = selectionStartLeftoverVisibleColumns (modelState c'))
   \<and> (let c' = fst (Cursor_setState ctx d c None (Some vs)) in
      leftoverVisibleColumns (modelState c')
        = leftoverVisibleColumns vs + column (position vs)
            - column (normalizePosition (viewModel ctx) (position vs) None_affinity)
      \<and> selectionStartLeftoverVisibleColumns (modelState c')
        = selectionStartLeftoverVisibleColumns vs
            + column (Range_getStartPosition (selectionStart vs))
            - column (normalizePosition (viewModel ctx)
                        (Range_getStartPosition (selectionStart vs)) None_affinity)
      \<and> leftoverVisibleColumns (viewState c') = leftoverVisibleColumns (modelState c')
      \<and> selectionStartLeftoverVisibleColumns (viewState c')
        = selectionStartLeftoverVisibleColumns (modelState c'))"
proof -
  have m: "leftoverVisibleColumns (validateModelState ctx ms)
             = (if validatePosition (model ctx) (position ms) = position ms
                then leftoverVisibleColumns ms else 0)"
          "selectionStartLeftoverVisibleColumns (validateModelState ctx ms)
             = (if validateRange (model ctx) (selectionStart ms) = selectionStart ms
                then selectionStartLeftoverVisibleColumns ms else 0)"
    by (auto simp: validateModelState_def Let_def mkSingleCursorState_def Position_equals_iff
          Range_equalsRange_iff)
  have v1: "leftoverVisibleColumns (viewStateFromModelState ctx s) = leftoverVisibleColumns s"
           "selectionStartLeftoverVisibleColumns (viewStateFromModelState ctx s)
              = selectionStartLeftoverVisibleColumns s" for s
    by (simp_all add: viewStateFromModelState_def Let_def mkSingleCursorState_def)
  have v2: "leftoverVisibleColumns (validateNewViewState ctx w s) = leftoverVisibleColumns s"
           "selectionStartLeftoverVisibleColumns (validateNewViewState ctx w s)
              = selectionStartLeftoverVisibleColumns s" for w s
    by (simp_all add: validateNewViewState_def Let_def mkSingleCursorState_def)
  have f: "leftoverVisibleColumns (modelStateFromViewState ctx w) = leftoverVisibleColumns w"
          "selectionStartLeftoverVisibleColumns (modelStateFromViewState ctx w)
             = selectionStartLeftoverVisibleColumns w" for w
    by (simp_all add: modelStateFromViewState_def Let_def mkSingleCursorState_def)
  have part1: "leftoverVisibleColumns (viewState (fst (Cursor_setState ctx d c (Some ms) vso)))
                 = leftoverVisibleColumns (validateModelState ctx ms)
               \<and> selectionStartLeftoverVisibleColumns
                   (viewState (fst (Cursor_setState ctx d c (Some ms) vso)))
                 = selectionStartLeftoverVisibleColumns (validateModelState ctx ms)"
    by (cases vso) (simp_all add: setState_model_given v1 v2)
  show ?thesis
    unfolding Let_def
    using part1
    by (simp add: setState_model_given(1) setState_view_only m v2 f validateViewState_leftover)
qed

theorem setState_leftover_columns_witness:
  "leftoverVisibleColumns (modelState (fst
      (Cursor_setState ex_ctx 0 blankCursor (Some (caretState 2 7 5)) None))) = 0
   \<and> leftoverVisibleColumns (modelState (fst
      (Cursor_setState ex_ctx 0 blankCursor (Some (caretState 2 3 5)) None))) = 5
   \<and> leftoverVisibleColumns (modelState (fst
      (Cursor_setState ex_ctx_clamp 0 blankCursor None (Some (caretState 2 7 5))))) = 9"
proof -
  have a: "validatePosition (model ex_ctx) (position (caretState 2 7 5))
             \<noteq> position (caretState 2 7 5)"
    by code_simp
  have b: "validatePosition (model ex_ctx) (position (caretState 2 3 5))
             = position (caretState 2 3 5)"
    by code_simp
  have c: "leftoverVisibleColumns (caretState 2 7 5) + column (position (caretState 2 7 5))
             - column (normalizePosition (viewModel ex_ctx_clamp) (position (caretState 2 7 5))
                 None_affinity) = 9"
    by code_simp
  have d: "leftoverVisibleColumns (caretState 2 3 5) = 5"
    by code_simp
  show ?thesis
    using setState_leftover_columns
            [of ex_ctx 0 blankCursor "caretState 2 7 5" None "caretState 2 7 5"]
          setState_leftover_columns
            [of ex_ctx 0 blankCursor "caretState 2 3 5" None "caretState 2 7 5"]
          setState_leftover_columns
            [of ex_ctx_clamp 0 blankCursor "caretState 2 7 5" None "caretState 2 7 5"]
    by (simp add: Let_def a b c d)
qed

text \<open>
  C4 as stated fails on the view-state path: with only the view state of a caret at
  (2, 7) with no leftover columns, on a view whose \<open>normalizePosition\<close> moves the caret to
  (2, 3), validation changes the position and both resulting states carry four leftover
  columns, not zero.
\<close>

theorem setState_view_leftover_not_reset:
  "normalizePosition (viewModel ex_ctx_clamp) (position (caretState 2 7 0)) None_affinity
     \<noteq> position (caretState 2 7 0)
   \<and> leftoverVisibleColumns (viewState (fst
        (Cursor_setState ex_ctx_clamp 0 blankCursor None (Some (caretState 2 7 0))))) = 4
   \<and> leftoverVisibleColumns (modelState (fst
        (Cursor_setState ex_ctx_clamp 0 blankCursor None (Some (caretState 2 7 0))))) = 4"
  by code_simp

text \<open>
  C5 (amended). For a valid document-space state, deriving the view state and then deriving
  the model state back from that view state gives the original state, provided the view
  model's \<open>normalizePosition\<close> leaves the three positions of the derived view state
  unchanged and the coordinate converter maps the derived view position and view
  selection-start range back to the original document position and range.
\<close>

theorem setState_round_trip:
  assumes valid: "validateRange (model ctx) (selectionStart ms) = selectionStart ms"
                 "validatePosition (model ctx) (position ms) = position ms"
    and step1: "Cursor_setState ctx d c (Some ms) None = (c1, d1)"
    and step2: "Cursor_setState ctx d1 c1 None (Some (viewState c1)) = (c2, d2)"
    and norm: "normalizePosition (viewModel ctx) (position (viewState c1)) None_affinity
                 = position (viewState c1)"
              "normalizePosition (viewModel ctx)
                 (Range_getStartPosition (selectionStart (viewState c1))) None_affinity
                 = Range_getStartPosition (selectionStart (viewState c1))"
              "normalizePosition (viewModel ctx)
                 (Range_getEndPosition (selectionStart (viewState c1))) None_affinity
                 = Range_getEndPosition (selectionStart (viewState c1))"
    and conv: "convertViewPositionToModelPosition (coordinatesConverter ctx)
                 (position (viewState c1)) = position ms"
              "convertViewRangeToModelRange (coordinatesConverter ctx)
                 (selectionStart (viewState c1)) = selectionStart ms"
  shows "modelState c1 = ms \<and> modelState c2 = ms"
proof -
  have vm: "validateModelState ctx ms = ms"
    using valid
    by (simp add: validateModelState_def Let_def mkSingleCursorState_def Position_equals_iff
          Range_equalsRange_iff)
  have m1: "modelState c1 = ms"
    using setState_model_given(1) [of ctx d c ms None] step1 vm by simp
  have vv: "validateViewState (viewModel ctx) (viewState c1) = viewState c1"
    using norm
    by (simp add: validateViewState_def Let_def validatePositionWithCache_def Position_equals_iff)
  have "modelState c2 = modelStateFromViewState ctx (viewState c1)"
    using setState_view_only(1) [of ctx d1 c1 "viewState c1"] step2 vv by simp
  also have "\<dots> = mkSingleCursorState (selectionStart ms) (selectionStartKind (viewState c1))
      (selectionStartLeftoverVisibleColumns (viewState c1)) (position ms)
      (leftoverVisibleColumns (viewState c1))"
    using conv valid by (simp add: modelStateFromViewState_def Let_def)
  also have "viewState c1 = viewStateFromModelState ctx ms"
    using setState_model_given(2) [of ctx d c ms] step1 vm by simp
  finally have "modelState c2 = ms"
    by (simp add: viewStateFromModelState_def Let_def mkSingleCursorState_def)
  with m1 show ?thesis by simp
qed

theorem setState_round_trip_witness:
  "validateRange (model ex_ctx)
       (selectionStart (mkSingleCursorState (mkRange 1 2 1 4) Word 3 (mkPosition 2 1) 7))
     = selectionStart (mkSingleCursorState (mkRange 1 2 1 4) Word 3 (mkPosition 2 1) 7)
   \<and> validatePosition (model ex_ctx)
       (position (mkSingleCursorState (mkRange 1 2 1 4) Word 3 (mkPosition 2 1) 7))
     = position (mkSingleCursorState (mkRange 1 2 1 4) Word 3 (mkPosition 2 1) 7)
   \<and> modelState (fst (Cursor_setState ex_ctx 1
        (fst (Cursor_setState ex_ctx 0 blankCursor
           (Some (mkSingleCursorState (mkRange 1 2 1 4) Word 3 (mkPosition 2 1) 7)) None))
        None
        (Some (viewState (fst (Cursor_setState ex_ctx 0 blankCursor
           (Some (mkSingleCursorState (mkRange 1 2 1 4) Word 3 (mkPosition 2 1) 7)) None))))))
     = mkSingleCursorState (mkRange 1 2 1 4) Word 3 (mkPosition 2 1) 7"
proof -
  let ?ms = "mkSingleCursorState (mkRange 1 2 1 4) Word 3 (mkPosition 2 1) 7"
  let ?r1 = "Cursor_setState ex_ctx 0 blankCursor (Some ?ms) None"
  let ?r2 = "Cursor_setState ex_ctx 1 (fst ?r1) None (Some (viewState (fst ?r1)))"
  have v1: "validateRange (model ex_ctx) (selectionStart ?ms) = selectionStart ?ms"
    by code_simp
  have v2: "validatePosition (model ex_ctx) (position ?ms) = position ?ms"
    by code_simp
  have s1: "?r1 = (fst ?r1, 1)"
    by code_simp
  have s2: "?r2 = (fst ?r2, snd ?r2)"
    by simp
  have n1: "normalizePosition (viewModel ex_ctx) (position (viewState (fst ?r1))) None_affinity
              = position (viewState (fst ?r1))"
    by code_simp
  have n2: "normalizePosition (viewModel ex_ctx)
              (Range_getStartPosition (selectionStart (viewState (fst ?r1)))) None_affinity
              = Range_getStartPosition (selectionStart (viewState (fst ?r1)))"
    by code_simp
  have n3: "normalizePosition (viewModel ex_ctx)
              (Range_getEndPosition (selectionStart (viewState (fst ?r1)))) None_affinity
              = Range_getEndPosition (selectionStart (viewState (fst ?r1)))"
    by code_simp
  have c1: "convertViewPositionToModelPosition (coordinatesConverter ex_ctx)
              (position (viewState (fst ?r1))) = position ?ms"
    by code_simp
  have c2: "convertViewRangeToModelRange (coordinatesConverter ex_ctx)
              (selectionStart (viewState (fst ?r1))) = selectionStart ?ms"
    by code_simp
  from setState_round_trip [OF v1 v2 s1 s2 n1 n2 n3 c1 c2] v1 v2
  show ?thesis by simp
qed

text \<open>
  C5 as stated fails when the view hides a line: the caret at (2, 1) is a valid
  document-space state; with line 2 folded its view state is the caret at (1, 9), and the
  model state derived back from that view state is the caret at (1, 9).
\<close>

theorem setState_round_trip_folded_line:
  "validateRange (model ex_ctx_folded) (selectionStart (caretState 2 1 0))
     = selectionStart (caretState 2 1 0)
   \<and> validatePosition (model ex_ctx_folded) (position (caretState 2 1 0))
     = position (caretState 2 1 0)
   \<and> Cursor_setState ex_ctx_folded 0 blankCursor (Some (caretState 2 1 0)) None
     = (fst (Cursor_setState ex_ctx_folded 0 blankCursor (Some (caretState 2 1 0)) None), 1)
   \<and> modelState (fst (Cursor_setState ex_ctx_folded 0 blankCursor (Some (caretState 2 1 0)) None))
     = caretState 2 1 0
   \<and> viewState (fst (Cursor_setState ex_ctx_folded 0 blankCursor (Some (caretState 2 1 0)) None))
     = caretState 1 9 0
   \<and> modelState (fst (Cursor_setState ex_ctx_folded 1
        (fst (Cursor_setState ex_ctx_folded 0 blankCursor (Some (caretState 2 1 0)) None))
        None (Some (caretState 1 9 0))))
     = caretState 1 9 0
   \<and> caretState 1 9 0 \<noteq> caretState 2 1 0"
  by code_simp

section \<open>Forward and backward delete\<close>

lemma mkRange_commute: "mkRange a b c d = mkRange c d a b"
  by (auto simp: mkRange_def)

lemma deleteRight_loop_eq:
  "deleteRight_loop right config mdl sels flag =
     (flag \<or> (\<exists>sel \<in> set sels.
         let d = (if Range_isEmpty (asRange sel)
                  then Range_fromPositions (Selection_getPosition sel)
                         (right config mdl (Selection_getPosition sel))
                  else asRange sel)
         in startLineNumber d \<noteq> endLineNumber d),
      map (\<lambda>sel.
         let d = (if Range_isEmpty (asRange sel)
                  then Range_fromPositions (Selection_getPosition sel)
                         (right config mdl (Selection_getPosition sel))
                  else asRange sel)
         in if Range_isEmpty d then None else Some (ReplaceCommand d [])) sels)"
proof (induction sels arbitrary: flag)
  case Nil
  then show ?case by simp
next
  case (Cons sel rest)
  have c: "mkRange (lineNumber (right config mdl (Selection_getPosition sel)))
             (column (right config mdl (Selection_getPosition sel)))
             (lineNumber (Selection_getPosition sel)) (column (Selection_getPosition sel))
           = Range_fromPositions (Selection_getPosition sel)
               (right config mdl (Selection_getPosition sel))"
    by (simp add: Range_fromPositions_def mkRange_commute)
  show ?case
    by (simp only: deleteRight_loop.simps Let_def c Cons.IH)
       (auto simp: Range_isEmpty_def Let_def)
qed

text \<open>
  C6. For every list of selections, \<open>deleteRight\<close> gives one entry per selection, in
  order. The delete span of an empty selection runs from the caret to the position one step
  to its right; a non-empty selection is its own span. An empty span gives no command, any
  other span a command replacing it with the empty string. The flag is true exactly when
  the previous operation was not a forward delete or some span covers more than one line.
\<close>

theorem deleteRight_spans:
  "deleteRight right prev config mdl selections =
     (prev \<noteq> DeletingRight \<or> (\<exists>sel \<in> set selections.
         let d = (if Range_isEmpty (asRange sel)
                  then Range_fromPositions (Selection_getPosition sel)
                         (right config mdl (Selection_getPosition sel))
                  else asRange sel)
         in startLineNumber d \<noteq> endLineNumber d),
      map (\<lambda>sel.
         let d = (if Range_isEmpty (asRange sel)
                  then Range_fromPositions (Selection_getPosition sel)
                         (right config mdl (Selection_getPosition sel))
                  else asRange sel)
         in if Range_isEmpty d then None else Some (ReplaceCommand d [])) selections)"
  by (simp only: deleteRight_def deleteRight_loop_eq)

theorem deleteRight_spans_witness:
  "deleteRight ex_right DeletingRight ex_config ex_viewModel
     [mkSelection 1 9 1 9, mkSelection 2 3 2 3, mkSelection 1 3 1 1]
   = (True, [Some (ReplaceCommand (mkRange 1 9 2 1) []), None,
             Some (ReplaceCommand (mkRange 1 1 1 3) [])])
   \<and> deleteRight ex_right DeletingRight ex_config ex_viewModel [mkSelection 1 8 1 8]
   = (False, [Some (ReplaceCommand (mkRange 1 8 1 9) [])])"
proof -
  have a: "(DeletingRight \<noteq> DeletingRight \<or> (\<exists>sel \<in> set
              [mkSelection 1 9 1 9, mkSelection 2 3 2 3, mkSelection 1 3 1 1].
         let d = (if Range_isEmpty (asRange sel)
                  then Range_fromPositions (Selection_getPosition sel)
                         (ex_right ex_config ex_viewModel (Selection_getPosition sel))
                  else asRange sel)
         in startLineNumber d \<noteq> endLineNumber d),
      map (\<lambda>sel.
         let d = (if Range_isEmpty (asRange sel)
                  then Range_fromPositions (Selection_getPosition sel)
                         (ex_right ex_config ex_viewModel (Selection_getPosition sel))
                  else asRange sel)
         in if Range_isEmpty d then None else Some (ReplaceCommand d []))
        [mkSelection 1 9 1 9, mkSelection 2 3 2 3, mkSelection 1 3 1 1])
     = (True, [Some (ReplaceCommand (mkRange 1 9 2 1) []), None,
               Some (ReplaceCommand (mkRange 1 1 1 3) [])])"
    by code_simp
  have b: "(DeletingRight \<noteq> DeletingRight \<or> (\<exists>sel \<in> set [mkSelection 1 8 1 8].
         let d = (if Range_isEmpty (asRange sel)
                  then Range_fromPositions (Selection_getPosition sel)
                         (ex_right ex_config ex_viewModel (Selection_getPosition sel))
                  else asRange sel)
         in startLineNumber d \<noteq> endLineNumber d),
      map (\<lambda>sel.
         let d = (if Range_isEmpty (asRange sel)
                  then Range_fromPositions (Selection_getPosition sel)
                         (ex_right ex_config ex_viewModel (Selection_getPosition sel))
                  else asRange sel)
         in if Range_isEmpty d then None else Some (ReplaceCommand d []))
        [mkSelection 1 8 1 8])
     = (False, [Some (ReplaceCommand (mkRange 1 8 1 9) [])])"
    by code_simp
  show ?thesis
    using deleteRight_spans [of ex_right DeletingRight ex_config ex_viewModel
            "[mkSelection 1 9 1 9, mkSelection 2 3 2 3, mkSelection 1 3 1 1]"]
          deleteRight_spans [of ex_right DeletingRight ex_config ex_viewModel
            "[mkSelection 1 8 1 8]"]
    by (simp only: a b)
qed

lemma runAutoClosingPairDelete_eq:
  "runAutoClosingPairDelete config mdl selections =
     (True, map (\<lambda>sel. Some (ReplaceCommand
        \<lparr>startLineNumber = positionLineNumber sel, startColumn = positionColumn sel - 1,
         endLineNumber = positionLineNumber sel, endColumn = positionColumn sel + 1\<rparr> []))
        selections)"
  by (simp add: runAutoClosingPairDelete_def Let_def Selection_getPosition_def mkPosition_def
        mkRange_def)

lemma isQuote_paren: "\<not> isQuote ''(''"
  by (simp add: isQuote_def)

lemma charAt_parens: "charAt ''()'' 0 = ''(''" "charAt ''()'' 1 = '')''"
  by (simp_all add: charAt_def)

lemma paren_pair_delete:
  assumes "autoClosingBrackets config \<noteq> ACS_never" "autoClosingDelete config = ACE_always"
    and "autoClosingPairsOpenByEnd config ''('' = Some cands"
    and "\<lparr>pairOpen = ''('', pairClose = '')''\<rparr> \<in> set cands"
    and "getLineContent mdl l = ''()''"
  shows "isAutoClosingPairDelete (autoClosingDelete config) (autoClosingBrackets config)
           (autoClosingQuotes config) (autoClosingPairsOpenByEnd config) mdl
           [mkSelection l 2 l 2] autoClosed"
proof -
  have "list_ex (\<lambda>cand. pairOpen cand = ''('' \<and> pairClose cand = '')'') cands"
    using assms(4) by (auto simp: list_ex_iff intro!: bexI[of _ "\<lparr>pairOpen = ''('', pairClose = '')''\<rparr>"])
  then show ?thesis
    using assms(1,2,3,5)
    by (simp add: isAutoClosingPairDelete_def Let_def Selection_getPosition_def mkPosition_def
          mkSelection_def asRange_def mkRange_def Range_isEmpty_def charAt_parens isQuote_paren)
qed

text \<open>
  C7. Whenever \<open>isAutoClosingPairDelete\<close> holds, \<open>deleteLeft\<close> returns, for every cursor, the
  command deleting the range from column - 1 to column + 1 on the caret's line, with the
  flag true. In particular, with bracket auto-closing not switched off, the delete policy
  \<open>always\<close> and the pair \<open>()\<close> configured, a caret between the two characters of a line
  \<open>()\<close> gives the single command deleting columns 1 to 3 of that line.
\<close>

theorem deleteLeft_autoClosingPair:
  "(isAutoClosingPairDelete (autoClosingDelete config) (autoClosingBrackets config)
       (autoClosingQuotes config) (autoClosingPairsOpenByEnd config) mdl selections autoClosed
    \<longrightarrow> deleteLeft glo prev config mdl selections autoClosed =
         (True, map (\<lambda>sel. Some (ReplaceCommand
            \<lparr>startLineNumber = positionLineNumber sel, startColumn = positionColumn sel - 1,
             endLineNumber = positionLineNumber sel, endColumn = positionColumn sel + 1\<rparr> []))
            selections))
   \<and> (autoClosingBrackets config \<noteq> ACS_never \<and> autoClosingDelete config = ACE_always
       \<and> autoClosingPairsOpenByEnd config ''('' = Some cands
       \<and> \<lparr>pairOpen = ''('', pairClose = '')''\<rparr> \<in> set cands
       \<and> getLineContent mdl l = ''()''
    \<longrightarrow> deleteLeft glo prev config mdl [mkSelection l 2 l 2] autoClosed =
         (True, [Some (ReplaceCommand
            \<lparr>startLineNumber = l, startColumn = 1, endLineNumber = l, endColumn = 3\<rparr> [])]))"
proof (intro conjI impI)
  assume "isAutoClosingPairDelete (autoClosingDelete config) (autoClosingBrackets config)
       (autoClosingQuotes config) (autoClosingPairsOpenByEnd config) mdl selections autoClosed"
  then show "deleteLeft glo prev config mdl selections autoClosed =
         (True, map (\<lambda>sel. Some (ReplaceCommand
            \<lparr>startLineNumber = positionLineNumber sel, startColumn = positionColumn sel - 1,
             endLineNumber = positionLineNumber sel, endColumn = positionColumn sel + 1\<rparr> []))
            selections)"
    by (simp add: deleteLeft_def runAutoClosingPairDelete_eq)
next
  assume a: "autoClosingBrackets config \<noteq> ACS_never \<and> autoClosingDelete config = ACE_always
       \<and> autoClosingPairsOpenByEnd config ''('' = Some cands
       \<and> \<lparr>pairOpen = ''('', pairClose = '')''\<rparr> \<in> set cands
       \<and> getLineContent mdl l = ''()''"
  then have "isAutoClosingPairDelete (autoClosingDelete config) (autoClosingBrackets config)
           (autoClosingQuotes config) (autoClosingPairsOpenByEnd config) mdl
           [mkSelection l 2 l 2] autoClosed"
    by (intro paren_pair_delete[of config cands mdl l]) simp_all
  then show "deleteLeft glo prev config mdl [mkSelection l 2 l 2] autoClosed =
         (True, [Some (ReplaceCommand
            \<lparr>startLineNumber = l, startColumn = 1, endLineNumber = l, endColumn = 3\<rparr> [])])"
    by (simp add: deleteLeft_def runAutoClosingPairDelete_eq mkSelection_def)
qed

theorem deleteLeft_autoClosingPair_witness:
  "isAutoClosingPairDelete (autoClosingDelete ex_config) (autoClosingBrackets ex_config)
       (autoClosingQuotes ex_config) (autoClosingPairsOpenByEnd ex_config) (lineModel ''()()'')
       [mkSelection 1 2 1 2, mkSelection 1 4 1 4] []
   \<and> deleteLeft ex_leftDeleteOffset Other ex_config (lineModel ''()()'')
       [mkSelection 1 2 1 2, mkSelection 1 4 1 4] []
     = (True, [Some (ReplaceCommand (mkRange 1 1 1 3) []),
               Some (ReplaceCommand (mkRange 1 3 1 5) [])])
   \<and> deleteLeft ex_leftDeleteOffset DeletingLeft ex_config (lineModel ''()'')
       [mkSelection 1 2 1 2] []
     = (True, [Some (ReplaceCommand (mkRange 1 1 1 3) [])])"
proof -
  have h: "isAutoClosingPairDelete (autoClosingDelete ex_config) (autoClosingBrackets ex_config)
       (autoClosingQuotes ex_config) (autoClosingPairsOpenByEnd ex_config) (lineModel ''()()'')
       [mkSelection 1 2 1 2, mkSelection 1 4 1 4] []"
    by code_simp
  have k: "autoClosingBrackets ex_config \<noteq> ACS_never \<and> autoClosingDelete ex_config = ACE_always
       \<and> autoClosingPairsOpenByEnd ex_config ''('' = Some [\<lparr>pairOpen = ''('', pairClose = '')''\<rparr>]
       \<and> \<lparr>pairOpen = ''('', pairClose = '')''\<rparr> \<in> set [\<lparr>pairOpen = ''('', pairClose = '')''\<rparr>]
       \<and> getLineContent (lineModel ''()'') 1 = ''()''"
    by (simp add: ex_config_def lineModel_def)
  have r: "mkRange 1 1 1 3
             = \<lparr>startLineNumber = 1, startColumn = 1, endLineNumber = 1, endColumn = 3\<rparr>"
          "mkRange 1 3 1 5
             = \<lparr>startLineNumber = 1, startColumn = 3, endLineNumber = 1, endColumn = 5\<rparr>"
    by (simp_all add: mkRange_def)
  from deleteLeft_autoClosingPair
         [of ex_config "lineModel ''()()''" "[mkSelection 1 2 1 2, mkSelection 1 4 1 4]" "[]"
             ex_leftDeleteOffset Other "[\<lparr>pairOpen = ''('', pairClose = '')''\<rparr>]" 1]
       deleteLeft_autoClosingPair
         [of ex_config "lineModel ''()''" "[]" "[]"
             ex_leftDeleteOffset DeletingLeft "[\<lparr>pairOpen = ''('', pairClose = '')''\<rparr>]" 1]
       h k
  show ?thesis
    by (simp add: r mkSelection_def)
qed

lemma firstNonWhitespaceIndex_from_range:
  "firstNonWhitespaceIndex_from s i = -1 \<or> i \<le> firstNonWhitespaceIndex_from s i"
proof (induction s arbitrary: i)
  case Nil
  then show ?case by simp
next
  case (Cons ch rest)
  from Cons.IH [of "i + 1"] show ?case by auto
qed

lemma firstNonWhitespaceIndex_four_spaces:
  assumes "take 4 s = ''    ''"
  shows "firstNonWhitespaceIndex s = -1 \<or> 4 \<le> firstNonWhitespaceIndex s"
proof -
  obtain r where r: "s = ''    '' @ r"
    using assms append_take_drop_id [of 4 s] by metis
  have "firstNonWhitespaceIndex s = firstNonWhitespaceIndex_from r 4"
    by (simp add: firstNonWhitespaceIndex_def r)
  then show ?thesis
    using firstNonWhitespaceIndex_from_range [of r 4] by simp
qed

lemma length_four_spaces: "take 4 s = ''    '' \<Longrightarrow> 4 \<le> length s"
  by (metis length_take min.cobounded1 length_Cons list.size(3) One_nat_def Suc_numeral
        numeral_One semiring_norm(2,8) eval_nat_numeral(2,3) min.absorb_iff2 nat_le_linear)

lemma prevIndentTabStop_4_4: "prevIndentTabStop 4 4 = 0"
  by (simp add: prevIndentTabStop_def js_rem_def)

text \<open>
  C8. With tab stops in use, indent size 4 and a caret at column 5 of a line whose first
  four characters are spaces, outside the auto-closing-pair case, \<open>deleteLeft\<close> gives the one
  command deleting columns 1 to 5 of that line. The visible-column mapping of the
  configuration is a parameter: on such a line it maps column 5 to visible column 4 and
  visible column 0 to column 1.
\<close>

theorem deleteLeft_indent_stop:
  assumes "useTabStops config" and "indentSize config = 4"
    and spaces: "take 4 (getLineContent mdl l) = ''    ''"
    and "\<not> isAutoClosingPairDelete (autoClosingDelete config) (autoClosingBrackets config)
           (autoClosingQuotes config) (autoClosingPairsOpenByEnd config) mdl
           [mkSelection l 5 l 5] autoClosed"
    and "visibleColumnFromColumn config mdl (mkPosition l 5) = 4"
    and "columnFromVisibleColumn config mdl l 0 = 1"
  shows "deleteLeft glo prev config mdl [mkSelection l 5 l 5] autoClosed =
           (prev \<noteq> DeletingLeft,
            [Some (ReplaceCommand
               \<lparr>startLineNumber = l, startColumn = 1, endLineNumber = l, endColumn = 5\<rparr> [])])"
proof -
  have pos: "Selection_getPosition (mkSelection l 5 l 5) = mkPosition l 5"
    by (simp add: Selection_getPosition_def mkSelection_def)
  have emp: "Range_isEmpty (asRange (mkSelection l 5 l 5))"
    by (simp add: asRange_def mkSelection_def mkRange_def Range_isEmpty_def)
  have ind: "5 \<le> (if firstNonWhitespaceIndex (getLineContent mdl l) = -1
                   then int (length (getLineContent mdl l)) + 1
                   else firstNonWhitespaceIndex (getLineContent mdl l) + 1)"
    using firstNonWhitespaceIndex_four_spaces [OF spaces] length_four_spaces [OF spaces]
    by auto
  have "getDeleteRange glo (mkSelection l 5 l 5) mdl config = mkRange l 1 l 5"
    using assms(1,2,5,6) ind
    by (auto simp: getDeleteRange_def emp pos Let_def mkPosition_def prevIndentTabStop_4_4
          split: if_splits)
  moreover have "mkRange l 1 l 5
      = \<lparr>startLineNumber = l, startColumn = 1, endLineNumber = l, endColumn = 5\<rparr>"
    by (simp add: mkRange_def)
  ultimately show ?thesis
    using assms(4) by (simp add: deleteLeft_def Range_isEmpty_def)
qed

theorem deleteLeft_indent_stop_witness:
  "useTabStops ex_config \<and> indentSize ex_config = 4
   \<and> take 4 (getLineContent (lineModel ''    foo'') 1) = ''    ''
   \<and> deleteLeft ex_leftDeleteOffset DeletingLeft ex_config (lineModel ''    foo'')
        [mkSelection 1 5 1 5] []
      = (False, [Some (ReplaceCommand (mkRange 1 1 1 5) [])])"
proof -
  have h1: "useTabStops ex_config" and h2: "indentSize ex_config = 4"
    by (simp_all add: ex_config_def)
  have h3: "take 4 (getLineContent (lineModel ''    foo'') 1) = ''    ''"
    by (simp add: lineModel_def)
  have h4: "\<not> isAutoClosingPairDelete (autoClosingDelete ex_config)
           (autoClosingBrackets ex_config) (autoClosingQuotes ex_config)
           (autoClosingPairsOpenByEnd ex_config) (lineModel ''    foo'')
           [mkSelection 1 5 1 5] []"
    by code_simp
  have h5: "visibleColumnFromColumn ex_config (lineModel ''    foo'') (mkPosition 1 5) = 4"
    by (simp add: ex_config_def mkPosition_def)
  have h6: "columnFromVisibleColumn ex_config (lineModel ''    foo'') 1 0 = 1"
    by (simp add: ex_config_def)
  have r: "mkRange 1 1 1 5
             = \<lparr>startLineNumber = 1, startColumn = 1, endLineNumber = 1, endColumn = 5\<rparr>"
    by (simp add: mkRange_def)
  from deleteLeft_indent_stop [OF h1 h2 h3 h4 h5 h6, of ex_leftDeleteOffset DeletingLeft]
       h1 h2 h3
  show ?thesis by (simp add: r)
qed

section \<open>Setting the states of a collection\<close>

lemma setStateAt_fields [simp]:
  "cursors (setStateAt st r ms vs) = cursors st"
  "lastAddedCursorIndex (setStateAt st r ms vs) = lastAddedCursorIndex st"
  "removedAt (setStateAt st r ms vs) = removedAt st"
  "cursorContext (setStateAt st r ms vs) = cursorContext st"
  by (simp_all add: setStateAt_def Let_def split: prod.splits)

lemma disposeAt_fields [simp]:
  "cursors (disposeAt st r) = cursors st"
  "lastAddedCursorIndex (disposeAt st r) = lastAddedCursorIndex st"
  "removedAt (disposeAt st r) = removedAt st"
  "cursorContext (disposeAt st r) = cursorContext st"
  by (simp_all add: disposeAt_def Let_def split: prod.splits)

lemma addSecondaryCursor_fields [simp]:
  "cursors (addSecondaryCursor st) = cursors st @ [nextRef st]"
  "removedAt (addSecondaryCursor st) = removedAt st"
  "cursorContext (addSecondaryCursor st) = cursorContext st"
  by (simp_all add: addSecondaryCursor_def allocCursor_def Let_def split: prod.splits)

lemma addSecondaryCursors_fields:
  "length (cursors (addSecondaryCursors n st)) = length (cursors st) + n"
  "removedAt (addSecondaryCursors n st) = removedAt st"
  "cursorContext (addSecondaryCursors n st) = cursorContext st"
  "take (length (cursors st)) (cursors (addSecondaryCursors n st)) = cursors st"
proof (induction n arbitrary: st)
  case 0
  { case 1 show ?case by simp }
  { case 2 show ?case by simp }
  { case 3 show ?case by simp }
  { case 4 show ?case by simp }
next
  case (Suc n)
  { case 1 show ?case by (simp add: Suc.IH(1)) }
  { case 2 show ?case by (simp add: Suc.IH(2)) }
  { case 3 show ?case by (simp add: Suc.IH(3)) }
  { case 4
    have "take (length (cursors st)) (cursors (addSecondaryCursors n (addSecondaryCursor st)))
          = take (length (cursors st))
              (take (length (cursors (addSecondaryCursor st)))
                 (cursors (addSecondaryCursors n (addSecondaryCursor st))))"
      by (simp add: min_def)
    also have "\<dots> = take (length (cursors st)) (cursors (addSecondaryCursor st))"
      by (simp only: Suc.IH(4))
    finally show ?case by simp }
qed

lemma js_nth_Some: "0 \<le> i \<Longrightarrow> i < int (length xs) \<Longrightarrow> js_nth xs i = Some (xs ! nat i)"
  by (simp add: js_nth_def)

lemma js_splice1_in_range:
  "0 \<le> k \<Longrightarrow> k < int (length xs) \<Longrightarrow> js_splice1 xs k = take (nat k) xs @ drop (Suc (nat k)) xs"
  by (simp add: js_splice1_def Let_def min_def)

lemma removeSecondaryCursor_ok:
  assumes "0 \<le> k + 1" "k + 1 < int (length (cursors st))"
  shows "\<exists>st'. removeSecondaryCursor st k = Inr st'
           \<and> cursors st' = js_splice1 (cursors st) (k + 1)
           \<and> removedAt st' = (k + 1) # removedAt st
           \<and> cursorContext st' = cursorContext st"
  using assms by (simp add: removeSecondaryCursor_def Let_def js_nth_Some)

lemma removeSecondaryCursors_ok:
  assumes "n < length (cursors st)"
  shows "\<exists>st'. removeSecondaryCursors n st = Inr st'
           \<and> cursors st' = take (length (cursors st) - n) (cursors st)
           \<and> (\<exists>new. removedAt st' = new @ removedAt st \<and> (\<forall>i \<in> set new. 1 \<le> i))
           \<and> cursorContext st' = cursorContext st"
  using assms
proof (induction n arbitrary: st)
  case 0
  then show ?case by simp
next
  case (Suc n)
  let ?k = "int (length (cursors st)) - 2"
  from Suc.prems have len: "2 \<le> length (cursors st)" by simp
  then have "0 \<le> ?k + 1" "?k + 1 < int (length (cursors st))" by linarith+
  from removeSecondaryCursor_ok [OF this] obtain st1 where
    r: "removeSecondaryCursor st ?k = Inr st1"
    and c: "cursors st1 = js_splice1 (cursors st) (?k + 1)"
    and t: "removedAt st1 = (?k + 1) # removedAt st"
    and x: "cursorContext st1 = cursorContext st"
    by blast
  have nk: "nat (?k + 1) = length (cursors st) - 1"
    using len by simp
  have ne: "cursors st \<noteq> []" using len by auto
  have "js_splice1 (cursors st) (?k + 1) = take (length (cursors st) - 1) (cursors st)"
    using ne \<open>0 \<le> ?k + 1\<close> \<open>?k + 1 < int (length (cursors st))\<close>
    by (simp only: js_splice1_in_range nk) simp
  with c have c': "cursors st1 = take (length (cursors st) - 1) (cursors st)" by simp
  then have "n < length (cursors st1)" using Suc.prems by simp
  from Suc.IH [OF this] obtain st' new where
    r': "removeSecondaryCursors n st1 = Inr st'"
    and c'': "cursors st' = take (length (cursors st1) - n) (cursors st1)"
    and t': "removedAt st' = new @ removedAt st1" "\<forall>i \<in> set new. 1 \<le> i"
    and x': "cursorContext st' = cursorContext st1"
    by blast
  have "cursors st' = take (length (cursors st) - Suc n) (cursors st)"
    using c'' c' by (simp add: min_def)
  moreover have "removedAt st' = (new @ [?k + 1]) @ removedAt st"
    using t t' by simp
  moreover have "\<forall>i \<in> set (new @ [?k + 1]). 1 \<le> i"
    using t'(2) len by auto
  ultimately show ?case
    using r r' x x' by (simp del: append_assoc)
qed

lemma setSecondaryStates_loop_ok:
  assumes "0 \<le> i" "i + int (length ss) \<le> int (length (cursors st)) - 1"
  shows "\<exists>st'. setSecondaryStates_loop st ss i = Inr st'
           \<and> cursors st' = cursors st \<and> removedAt st' = removedAt st
           \<and> cursorContext st' = cursorContext st"
  using assms
proof (induction ss arbitrary: st i)
  case Nil
  then show ?case by simp
next
  case (Cons s rest)
  then have "js_nth (cursors st) (i + 1) = Some (cursors st ! nat (i + 1))"
    by (intro js_nth_Some) simp_all
  moreover have "\<exists>st'. setSecondaryStates_loop
            (setStateAt st (cursors st ! nat (i + 1)) (pModelState s) (pViewState s)) rest (i + 1)
            = Inr st'
         \<and> cursors st' = cursors (setStateAt st (cursors st ! nat (i + 1)) (pModelState s) (pViewState s))
         \<and> removedAt st' = removedAt (setStateAt st (cursors st ! nat (i + 1)) (pModelState s) (pViewState s))
         \<and> cursorContext st' = cursorContext (setStateAt st (cursors st ! nat (i + 1)) (pModelState s) (pViewState s))"
    using Cons.prems by (intro Cons.IH) simp_all
  ultimately show ?case by simp
qed

lemma setSecondaryStates_ok:
  assumes "cursors st \<noteq> []"
  shows "\<exists>st'. setSecondaryStates st ss = Inr st'
           \<and> length (cursors st') = length ss + 1
           \<and> hd (cursors st') = hd (cursors st)
           \<and> (\<exists>new. removedAt st' = new @ removedAt st \<and> (\<forall>i \<in> set new. 1 \<le> i))
           \<and> cursorContext st' = cursorContext st"
proof -
  let ?scl = "int (length (cursors st)) - 1" and ?ssl = "int (length ss)"
  from assms have len: "1 \<le> length (cursors st)" by (cases "cursors st") simp_all
  have "\<exists>st1. (if ?scl < ?ssl then Inr (addSecondaryCursors (nat (?ssl - ?scl)) st)
               else if ?scl > ?ssl then removeSecondaryCursors (nat (?scl - ?ssl)) st
               else Inr st) = Inr st1
          \<and> length (cursors st1) = length ss + 1
          \<and> hd (cursors st1) = hd (cursors st)
          \<and> (\<exists>new. removedAt st1 = new @ removedAt st \<and> (\<forall>i \<in> set new. 1 \<le> i))
          \<and> cursorContext st1 = cursorContext st"
  proof (cases "?scl < ?ssl")
    case True
    let ?st1 = "addSecondaryCursors (nat (?ssl - ?scl)) st"
    have "hd (cursors ?st1) = hd (take (length (cursors st)) (cursors ?st1))"
      using assms by simp
    then have "hd (cursors ?st1) = hd (cursors st)"
      by (simp only: addSecondaryCursors_fields(4))
    moreover have "length (cursors ?st1) = length ss + 1"
      using True len by (simp add: addSecondaryCursors_fields(1))
    ultimately show ?thesis
      using True by (simp add: addSecondaryCursors_fields(2,3))
  next
    case False
    show ?thesis
    proof (cases "?scl > ?ssl")
      case True
      then have "nat (?scl - ?ssl) < length (cursors st)" by linarith
      from removeSecondaryCursors_ok [OF this] obtain st1 new where
        r: "removeSecondaryCursors (nat (?scl - ?ssl)) st = Inr st1"
        and c: "cursors st1 = take (length (cursors st) - nat (?scl - ?ssl)) (cursors st)"
        and t: "removedAt st1 = new @ removedAt st" "\<forall>i \<in> set new. 1 \<le> i"
        and x: "cursorContext st1 = cursorContext st"
        by blast
      have e: "length (cursors st) - nat (?scl - ?ssl) = length ss + 1"
        using True by linarith
      have "length (cursors st1) = length ss + 1"
        using c e True by simp
      moreover have "hd (cursors st1) = hd (cursors st)"
        using c e by (simp add: hd_take)
      ultimately show ?thesis
        using True False r t x by auto
    next
      case False
      with \<open>\<not> ?scl < ?ssl\<close> have "?scl = ?ssl" by simp
      then show ?thesis by simp
    qed
  qed
  then obtain st1 new where
    a: "(if ?scl < ?ssl then Inr (addSecondaryCursors (nat (?ssl - ?scl)) st)
         else if ?scl > ?ssl then removeSecondaryCursors (nat (?scl - ?ssl)) st
         else Inr st) = Inr st1"
    and l: "length (cursors st1) = length ss + 1"
    and h: "hd (cursors st1) = hd (cursors st)"
    and t: "removedAt st1 = new @ removedAt st" "\<forall>i \<in> set new. 1 \<le> i"
    and x: "cursorContext st1 = cursorContext st"
    by blast
  have "0 + int (length ss) \<le> int (length (cursors st1)) - 1" using l by simp
  from setSecondaryStates_loop_ok [OF _ this] obtain st' where
    "setSecondaryStates_loop st1 ss 0 = Inr st'" "cursors st' = cursors st1"
    "removedAt st' = removedAt st1" "cursorContext st' = cursorContext st1"
    by auto
  with a l h t x show ?thesis
    unfolding setSecondaryStates_def Let_def by auto
qed

text \<open>
  C10. \<open>setStates\<close> returns at once, leaving the collection as it is, for \<open>null\<close>. For an
  empty array it reads \<open>states[0]\<close>, which is \<open>undefined\<close>, and throws. For a non-empty array,
  on a collection that holds its primary cursor, every array read in \<open>setStates\<close> and
  \<open>_setSecondaryStates\<close> is in range: the call returns a collection with one cursor per
  state.
\<close>

theorem setStates_defined:
  "setStates st None = Inr st
   \<and> setStates st (Some []) = Inl TypeError
   \<and> (cursors st \<noteq> [] \<and> states \<noteq> []
        \<longrightarrow> (\<exists>st'. setStates st (Some states) = Inr st'
                   \<and> length (cursors st') = length states))"
proof (intro conjI impI)
  show "setStates st None = Inr st" by (simp add: setStates_def)
  show "setStates st (Some []) = Inl TypeError"
    by (simp add: setStates_def js_nth_def split: option.splits)
  assume a: "cursors st \<noteq> [] \<and> states \<noteq> []"
  then obtain r0 rs s0 ss where c: "cursors st = r0 # rs" and s: "states = s0 # ss"
    by (cases "cursors st"; cases states) auto
  let ?st1 = "setStateAt st r0 (pModelState s0) (pViewState s0)"
  have "cursors ?st1 \<noteq> []" using c by simp
  from setSecondaryStates_ok [OF this, of ss] obtain st' where
    "setSecondaryStates ?st1 ss = Inr st'" "length (cursors st') = length ss + 1"
    by blast
  then show "\<exists>st'. setStates st (Some states) = Inr st' \<and> length (cursors st') = length states"
    using c s by (simp add: setStates_def js_nth_def)
qed

theorem setStates_defined_witness:
  "cursors ex_collection \<noteq> []
   \<and> setStates ex_collection (Some []) = Inl TypeError
   \<and> (\<exists>st'. setStates ex_collection
               (Some [CursorState_fromModelSelection (mkSelection 1 1 1 5),
                      CursorState_fromModelSelection (mkSelection 1 3 1 8)]) = Inr st'
             \<and> length (cursors st') = 2)"
proof -
  have h: "cursors ex_collection \<noteq> []"
    by code_simp
  from setStates_defined [of ex_collection
         "[CursorState_fromModelSelection (mkSelection 1 1 1 5),
           CursorState_fromModelSelection (mkSelection 1 3 1 8)]"] h
  show ?thesis by (simp add: numeral_2_eq_2)
qed

section \<open>The invariant of normalization\<close>

lemma map_index_update:
  "w < length srt \<Longrightarrow> map index (srt[w := (srt ! w)\<lparr>sortedSelection := x\<rparr>]) = map index srt"
  by (simp add: map_update list_update_same_conv)

lemma mergeWinner_ok:
  assumes "0 \<le> index (srt ! w)" "index (srt ! w) < int (length cs)" "w < length srt"
  shows "\<exists>st2 srt2. mergeWinner st cs srt w l = Inr (st2, srt2)
           \<and> cursors st2 = cursors st \<and> removedAt st2 = removedAt st
           \<and> cursorContext st2 = cursorContext st \<and> map index srt2 = map index srt"
  using assms
  by (simp add: mergeWinner_def Let_def js_nth_Some map_index_update split: prod.splits)

lemma map_js_splice1: "map f (js_splice1 xs k) = js_splice1 (map f xs) k"
  by (simp add: js_splice1_def Let_def take_map drop_map)

lemma renumber_ok:
  fixes xs :: "int list"
  assumes d: "distinct xs" and p: "p < length xs" and r: "\<forall>x \<in> set xs. 0 \<le> x \<and> x < n"
  shows "distinct (js_splice1 (map (\<lambda>x. if x > xs ! p then x - 1 else x) xs) (int p))"
    and "\<forall>x \<in> set (js_splice1 (map (\<lambda>x. if x > xs ! p then x - 1 else x) xs) (int p)).
           0 \<le> x \<and> x < n - 1"
proof -
  let ?L = "xs ! p" and ?zs = "take p xs @ drop (Suc p) xs"
  let ?f = "\<lambda>x. if x > ?L then x - 1 else x"
  have split: "xs = take p xs @ ?L # drop (Suc p) xs"
    using p by (rule id_take_nth_drop)
  have dz: "distinct ?zs" and nz: "?L \<notin> set ?zs"
    using d by (subst (asm) split, simp)+
  have sub: "set ?zs \<subseteq> set xs"
    by (metis (no_types) set_append set_take_subset set_drop_subset Un_least)
  have L: "0 \<le> ?L" "?L < n" using r p by simp_all
  have e: "js_splice1 (map ?f xs) (int p) = map ?f ?zs"
    using p by (simp add: js_splice1_in_range take_map drop_map)
  have "inj_on ?f (set ?zs)"
  proof (rule inj_onI)
    fix x y assume "x \<in> set ?zs" "y \<in> set ?zs" and e: "?f x = ?f y"
    with nz have "x \<noteq> ?L" "y \<noteq> ?L" by auto
    with e show "x = y" by (auto split: if_splits)
  qed
  with dz show "distinct (js_splice1 (map ?f xs) (int p))"
    by (simp only: e distinct_map)
  show "\<forall>x \<in> set (js_splice1 (map ?f xs) (int p)). 0 \<le> x \<and> x < n - 1"
  proof
    fix y assume "y \<in> set (js_splice1 (map ?f xs) (int p))"
    then obtain x where x: "x \<in> set ?zs" "y = ?f x" by (auto simp only: e set_map)
    then have "x \<noteq> ?L" "0 \<le> x" "x < n" using nz sub r by auto
    with L x(2) show "0 \<le> y \<and> y < n - 1" by (auto split: if_splits)
  qed
qed

lemma mergeCursors_ok:
  assumes i: "i + 1 < length srt" and d: "distinct (map index srt)"
    and r: "\<forall>sc \<in> set srt. 0 \<le> index sc \<and> index sc < int (length cs)"
    and cs: "cs = cursors st"
  shows "\<exists>st' cs' srt'. mergeCursors st cs srt i = Inr (st', cs', srt')
           \<and> cs' = cursors st' \<and> length cs' + 1 = length cs \<and> cs' \<noteq> [] \<and> hd cs' = hd cs
           \<and> length srt' + 1 = length srt \<and> distinct (map index srt')
           \<and> (\<forall>sc \<in> set srt'. 0 \<le> index sc \<and> index sc < int (length cs'))
           \<and> (\<exists>k\<ge>1. removedAt st' = k # removedAt st)
           \<and> cursorContext st' = cursorContext st"
proof -
  let ?a = "index (srt ! i)" and ?b = "index (srt ! (i + 1))"
  define w where "w = (if ?a < ?b then i else i + 1)"
  define l where "l = (if ?a < ?b then i + 1 else i)"
  define L where "L = index (srt ! l)"
  have wl: "w < length srt" "l < length srt" using i by (simp_all add: w_def l_def)
  have ab: "?a \<noteq> ?b"
    using nth_eq_iff_index_eq [OF d, of i "i + 1"] i by simp
  have ra: "0 \<le> ?a" "?a < int (length cs)" and rb: "0 \<le> ?b" "?b < int (length cs)"
    using r i by (simp_all add: nth_mem)
  have W: "0 \<le> index (srt ! w)" "index (srt ! w) < int (length cs)"
    using ra rb by (simp_all add: w_def)
  have L: "1 \<le> L" "L < int (length cs)"
    using ra rb ab by (auto simp: L_def l_def)
  from mergeWinner_ok [OF W wl(1), of st l] obtain st2 srt2 where
    mw: "mergeWinner st cs srt w l = Inr (st2, srt2)"
    and c2: "cursors st2 = cursors st" and t2: "removedAt st2 = removedAt st"
    and x2: "cursorContext st2 = cursorContext st" and m2: "map index srt2 = map index srt"
    by blast
  have "0 \<le> (L - 1) + 1" "(L - 1) + 1 < int (length (cursors st2))"
    using L c2 cs by simp_all
  from removeSecondaryCursor_ok [OF this] obtain st3 where
    rm: "removeSecondaryCursor st2 (L - 1) = Inr st3"
    and c3: "cursors st3 = js_splice1 (cursors st2) L"
    and t3: "removedAt st3 = L # removedAt st2"
    and x3: "cursorContext st3 = cursorContext st2"
    by auto
  let ?f = "\<lambda>x. if x > L then x - 1 else x"
  let ?srt' = "js_splice1 (map (\<lambda>sc. if index sc > L then sc\<lparr>index := index sc - 1\<rparr> else sc) srt2)
                 (int l)"
  let ?cs' = "js_splice1 cs L"
  have res: "mergeCursors st cs srt i = Inr (st3, ?cs', ?srt')"
    using mw rm by (simp add: mergeCursors_def Let_def w_def l_def L_def)
  have len2: "length srt2 = length srt"
    using m2 by (metis length_map)
  have Lx: "L = (map index srt) ! l" using wl by (simp add: L_def)
  have "map index ?srt' = js_splice1 (map ?f (map index srt)) (int l)"
    by (simp add: map_js_splice1 m2 [symmetric] comp_def if_distrib [of index] cong: if_cong)
  then have mi: "map index ?srt'
      = js_splice1 (map (\<lambda>x. if x > (map index srt) ! l then x - 1 else x) (map index srt))
          (int l)"
    by (simp only: Lx)
  have rr: "\<forall>x \<in> set (map index srt). 0 \<le> x \<and> x < int (length cs)"
    using r by simp
  have pl: "l < length (map index srt)" using wl by simp
  have dist: "distinct (map index ?srt')"
    unfolding mi by (rule renumber_ok(1) [OF d pl rr])
  have rng: "\<forall>x \<in> set (map index ?srt'). 0 \<le> x \<and> x < int (length cs) - 1"
    unfolding mi by (rule renumber_ok(2) [OF d pl rr])
  have lcs: "length ?cs' + 1 = length cs"
    using L by (simp add: js_splice1_in_range)
  have ne: "?cs' \<noteq> []" using L lcs by (cases ?cs') auto
  have hd: "hd ?cs' = hd cs"
  proof -
    have "cs \<noteq> []" using L by auto
    moreover have "0 < nat L" using L by simp
    ultimately have "take (nat L) cs \<noteq> []" by simp
    then have "hd (take (nat L) cs @ drop (Suc (nat L)) cs) = hd (take (nat L) cs)"
      by simp
    also have "\<dots> = hd cs" using \<open>0 < nat L\<close> by simp
    finally show ?thesis using L by (simp add: js_splice1_in_range)
  qed
  have lsrt: "length ?srt' + 1 = length srt"
    using wl len2 by (simp add: js_splice1_in_range)
  have rng': "\<forall>sc \<in> set ?srt'. 0 \<le> index sc \<and> index sc < int (length ?cs')"
  proof
    fix sc assume "sc \<in> set ?srt'"
    then have "index sc \<in> set (map index ?srt')" by (simp only: set_map) (rule imageI)
    with rng lcs show "0 \<le> index sc \<and> index sc < int (length ?cs')" by force
  qed
  show ?thesis
    using res c3 c2 cs lcs ne hd lsrt dist rng' t3 t2 x3 x2 L(1)
    by (intro exI [of _ st3] exI [of _ ?cs'] exI [of _ ?srt']) simp
qed

lemma js_insert_set: "set (js_insert cmp x ys) = insert x (set ys)"
  by (induction ys) auto

lemma js_insert_length: "length (js_insert cmp x ys) = Suc (length ys)"
  by (induction ys) auto

lemma js_insert_distinct_map:
  "distinct (map f (js_insert cmp x ys)) \<longleftrightarrow> f x \<notin> f ` set ys \<and> distinct (map f ys)"
  by (induction ys) (auto simp: js_insert_set)

lemma js_foldl_facts:
  "set (foldl (\<lambda>racc x. js_insert cmp x racc) acc xs) = set acc \<union> set xs"
  "length (foldl (\<lambda>racc x. js_insert cmp x racc) acc xs) = length acc + length xs"
  "distinct (map f (foldl (\<lambda>racc x. js_insert cmp x racc) acc xs))
     \<longleftrightarrow> distinct (map f (acc @ xs))"
proof (induction xs arbitrary: acc)
  case Nil
  { case 1 show ?case by simp }
  { case 2 show ?case by simp }
  { case 3 show ?case by simp }
next
  case (Cons x xs)
  { case 1 show ?case by (simp add: Cons.IH(1) js_insert_set) }
  { case 2 show ?case by (simp add: Cons.IH(2) js_insert_length) }
  { case 3 show ?case
      by (simp add: Cons.IH(3) js_insert_distinct_map js_insert_set) blast }
qed

lemma js_sort_facts:
  "set (js_sort cmp xs) = set xs"
  "length (js_sort cmp xs) = length xs"
  "distinct (map f (js_sort cmp xs)) \<longleftrightarrow> distinct (map f xs)"
proof -
  show "set (js_sort cmp xs) = set xs" "length (js_sort cmp xs) = length xs"
    by (simp_all add: js_sort_def js_foldl_facts)
  have "distinct (map f (js_sort cmp xs))
          = distinct (rev (map f (foldl (\<lambda>racc x. js_insert cmp x racc) [] xs)))"
    by (simp only: js_sort_def rev_map)
  then show "distinct (map f (js_sort cmp xs)) \<longleftrightarrow> distinct (map f xs)"
    by (simp only: distinct_rev js_foldl_facts(3)) simp
qed

lemma normalize_loop_ok:
  assumes "cs = cursors st" "distinct (map index srt)"
    and "\<forall>sc \<in> set srt. 0 \<le> index sc \<and> index sc < int (length cs)"
  shows "\<exists>st'. normalize_loop st cs srt i = Inr st'
           \<and> length (cursors st') \<le> length (cursors st)
           \<and> (cursors st \<noteq> [] \<longrightarrow> cursors st' \<noteq> [] \<and> hd (cursors st') = hd (cursors st))
           \<and> (\<exists>new. removedAt st' = new @ removedAt st \<and> (\<forall>k \<in> set new. 1 \<le> k))
           \<and> cursorContext st' = cursorContext st"
  using assms
proof (induction st cs srt i rule: normalize_loop.induct)
  case (1 st cs srt i)
  show ?case
  proof (cases "int i < int (length srt) - 1")
    case False
    then show ?thesis by (subst normalize_loop.simps) simp
  next
    case inrange: True
    show ?thesis
    proof (cases "multiCursorMergeOverlapping (cursorConfig (cursorContext st))")
      case False
      with inrange "1.IH"(1) [OF inrange False "1.prems"] show ?thesis
        by (subst normalize_loop.simps) simp
    next
      case enabled: True
      show ?thesis
      proof (cases "shouldMergeCursors (sortedSelection (srt ! i))
                      (sortedSelection (srt ! (i + 1)))")
        case False
        with inrange enabled "1.IH"(3) [OF inrange _ False "1.prems"] show ?thesis
          by (subst normalize_loop.simps) simp
      next
        case merge: True
        from inrange have i: "i + 1 < length srt" by linarith
        from mergeCursors_ok [OF i "1.prems"(2,3,1)] obtain st1 cs1 srt1 k where
          m: "mergeCursors st cs srt i = Inr (st1, cs1, srt1)"
          and c1: "cs1 = cursors st1" and l1: "length cs1 + 1 = length cs"
          and ne: "cs1 \<noteq> []" and hd1: "hd cs1 = hd cs"
          and d1: "distinct (map index srt1)"
          and r1: "\<forall>sc \<in> set srt1. 0 \<le> index sc \<and> index sc < int (length cs1)"
          and t1: "1 \<le> k" "removedAt st1 = k # removedAt st"
          and x1: "cursorContext st1 = cursorContext st"
          by blast
        from "1.IH"(2) [OF inrange _ merge m refl refl c1 d1 r1] enabled
        obtain st' new where
          n: "normalize_loop st1 cs1 srt1 i = Inr st'"
          and l': "length (cursors st') \<le> length (cursors st1)"
          and ne': "cursors st1 \<noteq> [] \<longrightarrow> cursors st' \<noteq> [] \<and> hd (cursors st') = hd (cursors st1)"
          and t': "removedAt st' = new @ removedAt st1" "\<forall>k \<in> set new. 1 \<le> k"
          and x': "cursorContext st' = cursorContext st1"
          by auto
        have "normalize_loop st cs srt i = Inr st'"
          using inrange enabled merge m n by (subst normalize_loop.simps) simp
        moreover have "length (cursors st') \<le> length (cursors st)"
          using l' l1 c1 "1.prems"(1) by simp
        moreover have "cursors st' \<noteq> [] \<and> hd (cursors st') = hd (cursors st)"
          using ne ne' c1 hd1 "1.prems"(1) by simp
        moreover have "\<exists>new'. removedAt st' = new' @ removedAt st \<and> (\<forall>j \<in> set new'. 1 \<le> j)"
          using t1 t' by (intro exI [of _ "new @ [k]"]) simp
        moreover have "cursorContext st' = cursorContext st"
          using x1 x' by simp
        ultimately show ?thesis by blast
      qed
    qed
  qed
qed

lemma sortedSnapshot_indices:
  "distinct (map index (sortedSnapshot st))"
  "\<forall>sc \<in> set (sortedSnapshot st). 0 \<le> index sc \<and> index sc < int (length (cursors st))"
proof -
  show "distinct (map index (sortedSnapshot st))"
    unfolding sortedSnapshot_def
    by (simp only: js_sort_facts(3)) (simp add: comp_def distinct_map inj_on_def)
  show "\<forall>sc \<in> set (sortedSnapshot st). 0 \<le> index sc \<and> index sc < int (length (cursors st))"
    by (auto simp: sortedSnapshot_def js_sort_facts(1))
qed

lemma normalize_ok:
  "\<exists>st'. normalize st = Inr st'
     \<and> length (cursors st') \<le> length (cursors st)
     \<and> (cursors st \<noteq> [] \<longrightarrow> cursors st' \<noteq> [] \<and> hd (cursors st') = hd (cursors st))
     \<and> (\<exists>new. removedAt st' = new @ removedAt st \<and> (\<forall>k \<in> set new. 1 \<le> k))
     \<and> cursorContext st' = cursorContext st"
proof (cases "length (cursors st) = 1")
  case True
  then show ?thesis by (simp add: normalize_def)
next
  case False
  from normalize_loop_ok [OF refl sortedSnapshot_indices, of st 0] False show ?thesis
    by (simp add: normalize_def)
qed

lemma CursorCollection_new_fields:
  "cursors (CursorCollection_new ctx d) = [0]"
  "removedAt (CursorCollection_new ctx d) = []"
  "lastAddedCursorIndex (CursorCollection_new ctx d) = 0"
  by (simp_all add: CursorCollection_new_def allocCursor_def Let_def split: prod.splits)

text \<open>
  C2. The collection always holds its primary cursor. A new collection has exactly one
  cursor and has removed none. On a collection that holds at least one cursor, every
  \<open>setStates\<close> that returns, \<open>killSecondaryCursors\<close> and \<open>normalize\<close> (which always return)
  leave at least one cursor, keep the same cursor object at index 0, and every removal they
  perform is at an array index of at least 1.
\<close>

theorem collection_keeps_primary:
  "length (cursors (CursorCollection_new ctx d)) = 1
   \<and> removedAt (CursorCollection_new ctx d) = []
   \<and> (cursors st \<noteq> [] \<longrightarrow>
        (\<forall>st'. setStates st states = Inr st' \<longrightarrow>
           1 \<le> length (cursors st') \<and> hd (cursors st') = hd (cursors st)
           \<and> (\<exists>new. removedAt st' = new @ removedAt st \<and> (\<forall>i \<in> set new. 1 \<le> i)))
      \<and> (\<exists>st'. killSecondaryCursors st = Inr st' \<and> length (cursors st') = 1
           \<and> hd (cursors st') = hd (cursors st)
           \<and> (\<exists>new. removedAt st' = new @ removedAt st \<and> (\<forall>i \<in> set new. 1 \<le> i)))
      \<and> (\<exists>st'. normalize st = Inr st'
           \<and> 1 \<le> length (cursors st') \<and> hd (cursors st') = hd (cursors st)
           \<and> (\<exists>new. removedAt st' = new @ removedAt st \<and> (\<forall>i \<in> set new. 1 \<le> i))))"
proof (intro conjI impI allI)
  show "length (cursors (CursorCollection_new ctx d)) = 1"
    by (simp add: CursorCollection_new_fields)
  show "removedAt (CursorCollection_new ctx d) = []"
    by (simp add: CursorCollection_new_fields)
next
  fix st'
  assume ne: "cursors st \<noteq> []" and s: "setStates st states = Inr st'"
  show "1 \<le> length (cursors st')"
       "hd (cursors st') = hd (cursors st)"
       "\<exists>new. removedAt st' = new @ removedAt st \<and> (\<forall>i \<in> set new. 1 \<le> i)"
  proof -
    have "1 \<le> length (cursors st') \<and> hd (cursors st') = hd (cursors st)
          \<and> (\<exists>new. removedAt st' = new @ removedAt st \<and> (\<forall>i \<in> set new. 1 \<le> i))"
    proof (cases states)
      case None
      with s ne show ?thesis by (cases "cursors st") (simp_all add: setStates_def)
    next
      case (Some ss)
      from ne obtain r0 rs where c: "cursors st = r0 # rs" by (cases "cursors st") auto
      from s Some c obtain s0 rest where ss: "ss = s0 # rest"
        by (cases ss) (simp_all add: setStates_def js_nth_def)
      let ?st1 = "setStateAt st r0 (pModelState s0) (pViewState s0)"
      have "cursors ?st1 \<noteq> []" using c by simp
      from setSecondaryStates_ok [OF this, of rest] obtain st2 new where
        r: "setSecondaryStates ?st1 rest = Inr st2" "length (cursors st2) = length rest + 1"
           "hd (cursors st2) = hd (cursors ?st1)"
           "removedAt st2 = new @ removedAt ?st1" "\<forall>i \<in> set new. 1 \<le> i"
        by blast
      have "setStates st states = Inr st2"
        using Some c ss r(1) by (simp add: setStates_def js_nth_def)
      with s have "st' = st2" by simp
      with r show ?thesis by auto
    qed
    then show "1 \<le> length (cursors st')"
       "hd (cursors st') = hd (cursors st)"
       "\<exists>new. removedAt st' = new @ removedAt st \<and> (\<forall>i \<in> set new. 1 \<le> i)"
      by blast+
  qed
next
  assume ne: "cursors st \<noteq> []"
  from setSecondaryStates_ok [OF ne, of "[]"]
  show "\<exists>st'. killSecondaryCursors st = Inr st' \<and> length (cursors st') = 1
           \<and> hd (cursors st') = hd (cursors st)
           \<and> (\<exists>new. removedAt st' = new @ removedAt st \<and> (\<forall>i \<in> set new. 1 \<le> i))"
    by (simp add: killSecondaryCursors_def) blast
next
  assume ne: "cursors st \<noteq> []"
  from normalize_ok [of st] obtain st' new where
    n: "normalize st = Inr st'" "cursors st' \<noteq> []" "hd (cursors st') = hd (cursors st)"
       "removedAt st' = new @ removedAt st" "\<forall>i \<in> set new. 1 \<le> i"
    using ne by blast
  from n(2) have "1 \<le> length (cursors st')" by (cases "cursors st'") simp_all
  with n show "\<exists>st'. normalize st = Inr st'
           \<and> 1 \<le> length (cursors st') \<and> hd (cursors st') = hd (cursors st)
           \<and> (\<exists>new. removedAt st' = new @ removedAt st \<and> (\<forall>i \<in> set new. 1 \<le> i))"
    by blast
qed

theorem collection_keeps_primary_witness:
  "cursors ex_overlapping \<noteq> []
   \<and> (\<exists>st'. normalize ex_overlapping = Inr st'
           \<and> 1 \<le> length (cursors st') \<and> hd (cursors st') = hd (cursors ex_overlapping)
           \<and> (\<exists>new. removedAt st' = new @ removedAt ex_overlapping
                     \<and> (\<forall>i \<in> set new. 1 \<le> i)))
   \<and> (\<exists>st'. killSecondaryCursors ex_overlapping = Inr st' \<and> length (cursors st') = 1)"
proof -
  have h: "cursors ex_overlapping \<noteq> []"
    by code_simp
  from collection_keeps_primary [of ex_ctx 0 ex_overlapping None] h
  show ?thesis by blast
qed

section \<open>When normalization merges\<close>

lemma shouldMergeCursors_iff:
  "shouldMergeCursors cur nxt \<longleftrightarrow>
     ((Range_isEmpty (asRange cur) \<or> Range_isEmpty (asRange nxt))
        \<and> Position_isBeforeOrEqual (Range_getStartPosition (asRange nxt))
              (Range_getEndPosition (asRange cur)))
     \<or> (\<not> Range_isEmpty (asRange cur) \<and> \<not> Range_isEmpty (asRange nxt)
        \<and> Position_isBefore (Range_getStartPosition (asRange nxt))
              (Range_getEndPosition (asRange cur)))"
  by (auto simp: shouldMergeCursors_def)

lemma normalize_loop_no_merge:
  assumes "\<forall>j. i \<le> j \<and> j + 1 < length srt
             \<longrightarrow> \<not> shouldMergeCursors (sortedSelection (srt ! j)) (sortedSelection (srt ! (j + 1)))"
  shows "normalize_loop st cs srt i = Inr st"
  using assms
proof (induction "length srt - i" arbitrary: i)
  case 0
  then show ?case by (subst normalize_loop.simps) simp
next
  case (Suc n)
  from Suc(2) have "n = length srt - (i + 1)" by simp
  moreover have "\<forall>j. i + 1 \<le> j \<and> j + 1 < length srt
             \<longrightarrow> \<not> shouldMergeCursors (sortedSelection (srt ! j)) (sortedSelection (srt ! (j + 1)))"
    using Suc(3) by simp
  ultimately have "normalize_loop st cs srt (i + 1) = Inr st" by (rule Suc(1))
  moreover have "int i < int (length srt) - 1
       \<longrightarrow> \<not> shouldMergeCursors (sortedSelection (srt ! i)) (sortedSelection (srt ! (i + 1)))"
    using Suc(3) by auto
  ultimately show ?case
    by (subst normalize_loop.simps) simp
qed

lemma normalize_loop_advance:
  assumes "\<forall>j. i \<le> j \<and> j < k
             \<longrightarrow> \<not> shouldMergeCursors (sortedSelection (srt ! j)) (sortedSelection (srt ! (j + 1)))"
    and "i \<le> k" "k + 1 < length srt"
  shows "normalize_loop st cs srt i = normalize_loop st cs srt k"
  using assms
proof (induction "k - i" arbitrary: i)
  case 0
  then show ?case by simp
next
  case (Suc n)
  from Suc(2) have ik: "i < k" "n = k - (i + 1)" by simp_all
  have "normalize_loop st cs srt (i + 1) = normalize_loop st cs srt k"
    using Suc(3) ik Suc(5) by (intro Suc(1)) simp_all
  moreover have "\<not> shouldMergeCursors (sortedSelection (srt ! i)) (sortedSelection (srt ! (i + 1)))"
    using Suc(3) ik by simp
  moreover have "int i < int (length srt) - 1" using ik Suc(5) by linarith
  ultimately show ?case
    by (subst normalize_loop.simps) simp
qed

lemma normalize_loop_merges:
  assumes "cs = cursors st" "distinct (map index srt)"
    and "\<forall>sc \<in> set srt. 0 \<le> index sc \<and> index sc < int (length cs)"
    and en: "multiCursorMergeOverlapping (cursorConfig (cursorContext st))"
    and k: "k + 1 < length srt"
    and m: "shouldMergeCursors (sortedSelection (srt ! k)) (sortedSelection (srt ! (k + 1)))"
  shows "\<exists>st'. normalize_loop st cs srt k = Inr st' \<and> length (cursors st') < length (cursors st)"
proof -
  from mergeCursors_ok [OF k assms(2,3,1)] obtain st1 cs1 srt1 where
    mc: "mergeCursors st cs srt k = Inr (st1, cs1, srt1)"
    and c1: "cs1 = cursors st1" and l1: "length cs1 + 1 = length cs"
    and d1: "distinct (map index srt1)"
    and r1: "\<forall>sc \<in> set srt1. 0 \<le> index sc \<and> index sc < int (length cs1)"
    by blast
  from normalize_loop_ok [OF c1 d1 r1, of k] obtain st' where
    n: "normalize_loop st1 cs1 srt1 k = Inr st'" "length (cursors st') \<le> length (cursors st1)"
    by blast
  have "int k < int (length srt) - 1" using k by linarith
  then have "normalize_loop st cs srt k = Inr st'"
    using en m mc n(1) by (subst normalize_loop.simps) simp
  moreover have "length (cursors st') < length (cursors st)"
    using n(2) l1 c1 assms(1) by simp
  ultimately show ?thesis by blast
qed

lemma normalize_merges_iff:
  assumes en: "multiCursorMergeOverlapping (cursorConfig (cursorContext st))"
  shows "\<exists>st'. normalize st = Inr st'
           \<and> (length (cursors st') < length (cursors st) \<longleftrightarrow>
                (\<exists>j. j + 1 < length (sortedSnapshot st)
                   \<and> shouldMergeCursors (sortedSelection (sortedSnapshot st ! j))
                        (sortedSelection (sortedSnapshot st ! (j + 1)))))
           \<and> (length (cursors st') = length (cursors st) \<longrightarrow> st' = st)"
proof -
  let ?srt = "sortedSnapshot st"
  let ?M = "\<lambda>j. j + 1 < length ?srt
                \<and> shouldMergeCursors (sortedSelection (?srt ! j)) (sortedSelection (?srt ! (j + 1)))"
  have ls: "length ?srt = length (cursors st)"
    by (simp add: sortedSnapshot_def js_sort_facts(2))
  show ?thesis
  proof (cases "\<exists>j. ?M j")
    case False
    then have "normalize_loop st (cursors st) ?srt 0 = Inr st"
      by (intro normalize_loop_no_merge) auto
    then have "normalize st = Inr st" by (simp add: normalize_def)
    with False show ?thesis by simp
  next
    case True
    then obtain j where j: "?M j" and least: "\<forall>i < j. \<not> ?M i"
      using exists_least_iff [of ?M] by auto
    have "\<forall>i. 0 \<le> i \<and> i < j
            \<longrightarrow> \<not> shouldMergeCursors (sortedSelection (?srt ! i)) (sortedSelection (?srt ! (i + 1)))"
      using least j by auto
    from normalize_loop_advance [OF this _ conjunct1 [OF j], of st "cursors st"]
    have a: "normalize_loop st (cursors st) ?srt 0 = normalize_loop st (cursors st) ?srt j"
      by simp
    from normalize_loop_merges [OF refl sortedSnapshot_indices en conjunct1 [OF j] conjunct2 [OF j]]
    obtain st' where
      n: "normalize_loop st (cursors st) ?srt j = Inr st'"
         "length (cursors st') < length (cursors st)"
      by blast
    have "length (cursors st) \<noteq> 1" using j ls by simp
    then have "normalize st = Inr st'" using a n(1) by (simp add: normalize_def)
    with n(2) True show ?thesis by auto
  qed
qed

lemma compareRanges_trans:
  "Range_compareRangesUsingStarts a b \<le> 0 \<Longrightarrow> Range_compareRangesUsingStarts b c \<le> 0
     \<Longrightarrow> Range_compareRangesUsingStarts a c \<le> 0"
  by (auto simp: Range_compareRangesUsingStarts_def split: if_splits)

lemma compareRanges_total:
  "\<not> Range_compareRangesUsingStarts a b < 0 \<Longrightarrow> Range_compareRangesUsingStarts b a \<le> 0"
  by (auto simp: Range_compareRangesUsingStarts_def split: if_splits)

lemma js_insert_sorted:
  assumes tr: "\<And>a b c. cmp a b \<le> 0 \<Longrightarrow> cmp b c \<le> 0 \<Longrightarrow> cmp a c \<le> (0::int)"
    and tot: "\<And>a b. \<not> cmp a b < 0 \<Longrightarrow> cmp b a \<le> 0"
    and s: "sorted_wrt (\<lambda>a b. cmp b a \<le> 0) ys"
  shows "sorted_wrt (\<lambda>a b. cmp b a \<le> 0) (js_insert cmp x ys)"
  using s
proof (induction ys)
  case Nil
  then show ?case by simp
next
  case (Cons y ys)
  show ?case
  proof (cases "cmp x y < 0")
    case True
    with Cons show ?thesis by (auto simp: js_insert_set)
  next
    case False
    from tot [OF False] have yx: "cmp y x \<le> 0" .
    have "\<forall>b \<in> set ys. cmp b x \<le> 0"
      using Cons.prems yx tr by auto
    with False yx Cons.prems show ?thesis by simp
  qed
qed

lemma js_sort_sorted:
  assumes tr: "\<And>a b c. cmp a b \<le> 0 \<Longrightarrow> cmp b c \<le> 0 \<Longrightarrow> cmp a c \<le> (0::int)"
    and tot: "\<And>a b. \<not> cmp a b < 0 \<Longrightarrow> cmp b a \<le> 0"
  shows "sorted_wrt (\<lambda>a b. cmp a b \<le> 0) (js_sort cmp xs)"
proof -
  have "sorted_wrt (\<lambda>a b. cmp b a \<le> 0) (foldl (\<lambda>racc x. js_insert cmp x racc) acc xs)"
    if "sorted_wrt (\<lambda>a b. cmp b a \<le> 0) acc" for acc
    using that
  proof (induction xs arbitrary: acc)
    case Nil
    then show ?case by simp
  next
    case (Cons x xs)
    from js_insert_sorted [of cmp acc x, OF tr tot Cons.prems]
    show ?case by (simp add: Cons.IH)
  qed
  from this [of "[]"] show ?thesis
    by (simp add: js_sort_def sorted_wrt_rev)
qed

lemma sortedSnapshot_sorted:
  "sorted_wrt (\<lambda>a b. Range_compareRangesUsingStarts (asRange (sortedSelection a))
                        (asRange (sortedSelection b)) \<le> 0) (sortedSnapshot st)"
proof -
  have "sorted_wrt (\<lambda>a b. compareSortedCursors a b \<le> 0) (sortedSnapshot st)"
    unfolding sortedSnapshot_def
    by (rule js_sort_sorted)
       (auto simp: compareSortedCursors_def intro: compareRanges_trans compareRanges_total)
  then show ?thesis by (simp add: compareSortedCursors_def)
qed

lemma sortedSnapshot_selections:
  "length (sortedSnapshot st) = length (cursors st)"
  "sortedSelection ` set (sortedSnapshot st) = set (getSelections st)"
proof -
  show "length (sortedSnapshot st) = length (cursors st)"
    by (simp add: sortedSnapshot_def js_sort_facts(2))
  have "sortedSelection ` set (sortedSnapshot st)
          = (\<lambda>i. selection (modelState (heap st (cursors st ! i)))) ` {0..<length (cursors st)}"
    by (simp add: sortedSnapshot_def js_sort_facts(1) image_image)
  also have "\<dots> = set (map (\<lambda>r. selection (modelState (heap st r))) (cursors st))"
    by (subst (3) map_nth [symmetric]) (simp only: map_map comp_def set_map set_upt)
  finally show "sortedSelection ` set (sortedSnapshot st) = set (getSelections st)"
    by (simp add: getSelections_def)
qed

lemma setStateAt_modelState:
  "modelState (heap (setStateAt st r (Some ms) vs) r) = validateModelState (cursorContext st) ms"
  "r' \<noteq> r \<Longrightarrow> heap (setStateAt st r ms' vs) r' = heap st r'"
  using setState_model_given(1) [of "cursorContext st" "doc st" "heap st r" ms vs]
  by (cases "Cursor_setState (cursorContext st) (doc st) (heap st r) (Some ms) vs";
      cases "Cursor_setState (cursorContext st) (doc st) (heap st r) ms' vs";
      simp add: setStateAt_def)+

lemma disposeAt_modelState:
  "modelState (heap (disposeAt st r) r') = modelState (heap st r')"
  by (simp add: disposeAt_def Cursor_dispose_def removeTrackedRange_def Let_def
        split: prod.splits)

lemma removeSecondaryCursor_modelState:
  "removeSecondaryCursor st k = Inr st' \<Longrightarrow> modelState (heap st' r) = modelState (heap st r)"
  by (auto simp: removeSecondaryCursor_def Let_def disposeAt_modelState
        split: option.splits if_splits)

lemma overlapping_pair_merges:
  assumes c: "cursors st = [r0, r1]"
    and s0: "selection (modelState (heap st r0)) = mkSelection 1 1 1 5"
    and s1: "selection (modelState (heap st r1)) = mkSelection 1 3 1 8"
    and en: "multiCursorMergeOverlapping (cursorConfig (cursorContext st))"
    and v1: "validateRange (model (cursorContext st)) (mkRange 1 1 1 1) = mkRange 1 1 1 1"
    and v2: "validatePosition (model (cursorContext st)) (mkPosition 1 8) = mkPosition 1 8"
  shows "\<exists>st'. normalize st = Inr st' \<and> getSelections st' = [mkSelection 1 1 1 8]"
proof -
  let ?a = "\<lparr>index = 0, sortedSelection = mkSelection 1 1 1 5\<rparr>"
  let ?b = "\<lparr>index = 1, sortedSelection = mkSelection 1 3 1 8\<rparr>"
  let ?srt = "[?a, ?b]"
  let ?ms = "mkSingleCursorState (mkRange 1 1 1 1) Simple 0 (mkPosition 1 8) 0"
  have srt: "sortedSnapshot st = ?srt"
    using c s0 s1
    by (simp add: sortedSnapshot_def js_sort_def compareSortedCursors_def
          Range_compareRangesUsingStarts_def asRange_def mkSelection_def mkRange_def
          upt_rec [of 0] upt_rec [of 1] numeral_2_eq_2)
  have sm: "shouldMergeCursors (mkSelection 1 1 1 5) (mkSelection 1 3 1 8)"
    by (simp add: shouldMergeCursors_def asRange_def mkSelection_def mkRange_def
          Range_isEmpty_def Range_getStartPosition_def Range_getEndPosition_def
          Position_isBefore_def mkPosition_def)
  have fm: "CursorState_fromModelSelection (mkSelection 1 1 1 8)
              = \<lparr>pModelState = Some ?ms, pViewState = None\<rparr>"
    by (simp add: CursorState_fromModelSelection_def Selection_getSelectionStart_def
          Selection_getPosition_def Range_fromPositions_def mkSelection_def mkPosition_def)
  have vms: "validateModelState (cursorContext st) ?ms = ?ms"
    using v1 v2
    by (simp add: validateModelState_def mkSingleCursorState_def Let_def Range_equalsRange_iff
          Position_equals_iff)
  have sel: "selection ?ms = mkSelection 1 1 1 8"
    by (simp add: selection_def mkSingleCursorState_def mkRange_def Range_isEmpty_def
          Selection_fromPositions_def Range_getStartPosition_def mkPosition_def)
  define st1 where "st1 = (if 1 = lastAddedCursorIndex st
                           then st\<lparr>lastAddedCursorIndex := 0\<rparr> else st)"
  define st2 where "st2 = setStateAt st1 r0 (Some ?ms) None"
  have c1: "cursors st1 = [r0, r1]" and x1: "cursorContext st1 = cursorContext st"
    using c by (simp_all add: st1_def)
  have mw: "mergeWinner st [r0, r1] ?srt 0 1
              = Inr (st2, [?a\<lparr>sortedSelection := mkSelection 1 1 1 8\<rparr>, ?b])"
    by (simp add: mergeWinner_def Let_def Selection_equalsSelection_def mkSelection_def
          Range_plusRange_def asRange_def mkRange_def isLTR_def js_nth_def
          fm [unfolded mkSelection_def] st1_def st2_def)
  have "(0::int) \<le> 0 + 1" "0 + 1 < int (length (cursors st2))"
    using c1 by (simp_all add: st2_def)
  from removeSecondaryCursor_ok [OF this] obtain st3 where
    rm: "removeSecondaryCursor st2 0 = Inr st3"
    and c3: "cursors st3 = js_splice1 (cursors st2) 1"
    by auto
  have c3': "cursors st3 = [r0]"
    using c3 c1 by (simp add: st2_def js_splice1_def Let_def)
  have mc: "mergeCursors st [r0, r1] ?srt 0
              = Inr (st3, [r0], [?a\<lparr>sortedSelection := mkSelection 1 1 1 8\<rparr>])"
    using mw rm by (simp add: mergeCursors_def Let_def js_splice1_def)
  have "normalize_loop st3 [r0] [?a\<lparr>sortedSelection := mkSelection 1 1 1 8\<rparr>] 0 = Inr st3"
    by (subst normalize_loop.simps) simp
  then have "normalize_loop st [r0, r1] ?srt 0 = Inr st3"
    using en sm mc by (subst normalize_loop.simps) simp
  then have n: "normalize st = Inr st3"
    using c srt by (simp add: normalize_def)
  have "modelState (heap st3 r0) = modelState (heap st2 r0)"
    using rm by (rule removeSecondaryCursor_modelState)
  also have "\<dots> = ?ms"
    using vms x1 by (simp add: st2_def setStateAt_modelState(1))
  finally have "getSelections st3 = [mkSelection 1 1 1 8]"
    using c3' sel by (simp add: getSelections_def)
  with n show ?thesis by blast
qed

text \<open>
  C1. The snapshot of \<open>normalize\<close> holds the selections of the cursors sorted by start.
  With merging of overlapping cursors enabled, \<open>normalize\<close> returns, and it removes a
  cursor exactly when some adjacent pair of the sorted snapshot satisfies the merge
  condition: one of the two selections is empty and the later one starts at or before the
  end of the earlier one, or both are non-empty and the later one starts strictly before
  the end of the earlier one; otherwise the collection is unchanged. At every step the loop
  merges the pair it looks at exactly under that condition. In particular two cursors with
  the selections from (1, 1) to (1, 5) and from (1, 3) to (1, 8), on a document in which
  (1, 1) and (1, 8) are valid, become one cursor whose selection runs from (1, 1) to (1, 8).
\<close>

theorem normalize_merges_overlapping:
  "sorted_wrt (\<lambda>a b. Range_compareRangesUsingStarts (asRange (sortedSelection a))
                       (asRange (sortedSelection b)) \<le> 0) (sortedSnapshot st)
   \<and> length (sortedSnapshot st) = length (cursors st)
   \<and> sortedSelection ` set (sortedSnapshot st) = set (getSelections st)
   \<and> (multiCursorMergeOverlapping (cursorConfig (cursorContext st)) \<longrightarrow>
        (\<exists>st'. normalize st = Inr st'
           \<and> (length (cursors st') < length (cursors st) \<longleftrightarrow>
                (\<exists>j. j + 1 < length (sortedSnapshot st)
                   \<and> (let cur = asRange (sortedSelection (sortedSnapshot st ! j));
                           nxt = asRange (sortedSelection (sortedSnapshot st ! (j + 1)))
                       in ((Range_isEmpty cur \<or> Range_isEmpty nxt)
                             \<and> Position_isBeforeOrEqual (Range_getStartPosition nxt)
                                   (Range_getEndPosition cur))
                          \<or> (\<not> Range_isEmpty cur \<and> \<not> Range_isEmpty nxt
                             \<and> Position_isBefore (Range_getStartPosition nxt)
                                   (Range_getEndPosition cur)))))
           \<and> (length (cursors st') = length (cursors st) \<longrightarrow> st' = st)))
   \<and> (multiCursorMergeOverlapping (cursorConfig (cursorContext st))
        \<and> int i < int (length srt) - 1 \<longrightarrow>
        normalize_loop st cs srt i =
          (let cur = asRange (sortedSelection (srt ! i));
               nxt = asRange (sortedSelection (srt ! (i + 1)))
           in if ((Range_isEmpty cur \<or> Range_isEmpty nxt)
                    \<and> Position_isBeforeOrEqual (Range_getStartPosition nxt)
                          (Range_getEndPosition cur))
                 \<or> (\<not> Range_isEmpty cur \<and> \<not> Range_isEmpty nxt
                    \<and> Position_isBefore (Range_getStartPosition nxt)
                          (Range_getEndPosition cur))
              then (case mergeCursors st cs srt i of
                      Inl e \<Rightarrow> Inl e
                    | Inr (st', cs', srt') \<Rightarrow> normalize_loop st' cs' srt' i)
              else normalize_loop st cs srt (i + 1)))
   \<and> (multiCursorMergeOverlapping (cursorConfig (cursorContext st))
        \<and> cursors st = [r0, r1]
        \<and> selection (modelState (heap st r0)) = mkSelection 1 1 1 5
        \<and> selection (modelState (heap st r1)) = mkSelection 1 3 1 8
        \<and> validateRange (model (cursorContext st)) (mkRange 1 1 1 1) = mkRange 1 1 1 1
        \<and> validatePosition (model (cursorContext st)) (mkPosition 1 8) = mkPosition 1 8
        \<longrightarrow> (\<exists>st'. normalize st = Inr st' \<and> getSelections st' = [mkSelection 1 1 1 8]))"
proof (intro conjI impI)
  show "sorted_wrt (\<lambda>a b. Range_compareRangesUsingStarts (asRange (sortedSelection a))
                       (asRange (sortedSelection b)) \<le> 0) (sortedSnapshot st)"
    by (rule sortedSnapshot_sorted)
  show "length (sortedSnapshot st) = length (cursors st)"
    by (rule sortedSnapshot_selections(1))
  show "sortedSelection ` set (sortedSnapshot st) = set (getSelections st)"
    by (rule sortedSnapshot_selections(2))
next
  assume "multiCursorMergeOverlapping (cursorConfig (cursorContext st))"
  from normalize_merges_iff [OF this]
  show "\<exists>st'. normalize st = Inr st'
           \<and> (length (cursors st') < length (cursors st) \<longleftrightarrow>
                (\<exists>j. j + 1 < length (sortedSnapshot st)
                   \<and> (let cur = asRange (sortedSelection (sortedSnapshot st ! j));
                           nxt = asRange (sortedSelection (sortedSnapshot st ! (j + 1)))
                       in ((Range_isEmpty cur \<or> Range_isEmpty nxt)
                             \<and> Position_isBeforeOrEqual (Range_getStartPosition nxt)
                                   (Range_getEndPosition cur))
                          \<or> (\<not> Range_isEmpty cur \<and> \<not> Range_isEmpty nxt
                             \<and> Position_isBefore (Range_getStartPosition nxt)
                                   (Range_getEndPosition cur)))))
           \<and> (length (cursors st') = length (cursors st) \<longrightarrow> st' = st)"
    by (simp only: shouldMergeCursors_iff Let_def)
next
  assume "multiCursorMergeOverlapping (cursorConfig (cursorContext st))
            \<and> int i < int (length srt) - 1"
  then show "normalize_loop st cs srt i =
          (let cur = asRange (sortedSelection (srt ! i));
               nxt = asRange (sortedSelection (srt ! (i + 1)))
           in if ((Range_isEmpty cur \<or> Range_isEmpty nxt)
                    \<and> Position_isBeforeOrEqual (Range_getStartPosition nxt)
                          (Range_getEndPosition cur))
                 \<or> (\<not> Range_isEmpty cur \<and> \<not> Range_isEmpty nxt
                    \<and> Position_isBefore (Range_getStartPosition nxt)
                          (Range_getEndPosition cur))
              then (case mergeCursors st cs srt i of
                      Inl e \<Rightarrow> Inl e
                    | Inr (st', cs', srt') \<Rightarrow> normalize_loop st' cs' srt' i)
              else normalize_loop st cs srt (i + 1))"
    by (subst normalize_loop.simps) (simp add: shouldMergeCursors_iff Let_def)
next
  assume "multiCursorMergeOverlapping (cursorConfig (cursorContext st))
        \<and> cursors st = [r0, r1]
        \<and> selection (modelState (heap st r0)) = mkSelection 1 1 1 5
        \<and> selection (modelState (heap st r1)) = mkSelection 1 3 1 8
        \<and> validateRange (model (cursorContext st)) (mkRange 1 1 1 1) = mkRange 1 1 1 1
        \<and> validatePosition (model (cursorContext st)) (mkPosition 1 8) = mkPosition 1 8"
  then show "\<exists>st'. normalize st = Inr st' \<and> getSelections st' = [mkSelection 1 1 1 8]"
    by (intro overlapping_pair_merges [of st r0 r1]) simp_all
qed

theorem normalize_merges_overlapping_witness:
  "multiCursorMergeOverlapping (cursorConfig (cursorContext ex_overlapping))
   \<and> getSelections ex_overlapping = [mkSelection 1 1 1 5, mkSelection 1 3 1 8]
   \<and> (\<exists>st'. normalize ex_overlapping = Inr st' \<and> getSelections st' = [mkSelection 1 1 1 8])"
proof -
  have h: "multiCursorMergeOverlapping (cursorConfig (cursorContext ex_overlapping))
        \<and> cursors ex_overlapping = [0, 1]
        \<and> selection (modelState (heap ex_overlapping 0)) = mkSelection 1 1 1 5
        \<and> selection (modelState (heap ex_overlapping 1)) = mkSelection 1 3 1 8
        \<and> validateRange (model (cursorContext ex_overlapping)) (mkRange 1 1 1 1) = mkRange 1 1 1 1
        \<and> validatePosition (model (cursorContext ex_overlapping)) (mkPosition 1 8)
            = mkPosition 1 8"
    by code_simp
  have g: "getSelections ex_overlapping = [mkSelection 1 1 1 5, mkSelection 1 3 1 8]"
    by code_simp
  from normalize_merges_overlapping [of ex_overlapping 0 "[]" "[]" 0 1] h g
  show ?thesis by blast
qed

section \<open>The order in which cut processes selections\<close>

text \<open>
  C3. \<open>cut\<close> does not sort by (start, end). Its comparator compares the start of one
  selection with the end of the other: a non-empty selection compares below itself, and
  of the two overlapping selections from (1, 1) to (1, 5) and from (1, 3) to (1, 8) each
  compares below the other. Given in that order, the two are processed in the opposite
  order, the one starting at (1, 3) first.
\<close>

theorem cut_compares_start_with_end:
  "cut_comparator (mkSelection 1 1 1 5) (mkSelection 1 1 1 5) < 0
   \<and> cut_comparator (mkSelection 1 1 1 5) (mkSelection 1 3 1 8) < 0
   \<and> cut_comparator (mkSelection 1 3 1 8) (mkSelection 1 1 1 5) < 0
   \<and> cut_sorted [mkSelection 1 1 1 5, mkSelection 1 3 1 8]
       = [mkSelection 1 3 1 8, mkSelection 1 1 1 5]
   \<and> commands (cut ex_config ex_viewModel [mkSelection 1 1 1 5, mkSelection 1 3 1 8])
       = [Some (ReplaceCommand (mkRange 1 3 1 8) []), Some (ReplaceCommand (mkRange 1 1 1 5) [])]"
  by code_simp

end
